theory Spec2Isabelle
  imports Complex_Main "HOL-Library.AList" "HOL-Library.Multiset" "HOL-Library.Sublist"
begin

section \<open>Conventions of the embedding\<close>

text \<open>
  The program is Python. Its numbers are modelled as exact rationals (\<open>rat\<close>): every
  statement about a computed amount is a statement under exact arithmetic, and the
  rounding of binary floating point is outside the model. Division raises
  \<open>ZeroDivisionError\<close> on a zero divisor, as it does in Python for both integers and
  floats.

  Text is modelled as \<open>string\<close>, each \<open>char\<close> read as the code point of that number
  (0 to 255). On these code points the whitespace class of \<open>str.strip\<close>,
  \<open>str.split\<close> and the regular expression class \<open>\s\<close> is the same twelve
  characters, \<open>\d\<close> is the ten ASCII digits, and \<open>str.lower\<close> adds 32 to the code
  of an upper-case letter.

  Exceptions are values: a function that can raise returns \<open>error + 'a\<close>, with
  \<open>Inl\<close> for the exception.
\<close>

datatype error = ValueError string | ZeroDivisionError | KeyError string

definition bindE :: "error + 'a \<Rightarrow> ('a \<Rightarrow> error + 'b) \<Rightarrow> error + 'b" where
  "bindE m k = (case m of Inl e \<Rightarrow> Inl e | Inr v \<Rightarrow> k v)"

text \<open>A list comprehension whose element expression can raise: left to right, the first
  exception aborts the rest.\<close>

fun mapE :: "('a \<Rightarrow> error + 'b) \<Rightarrow> 'a list \<Rightarrow> error + 'b list" where
  "mapE g [] = Inr []"
| "mapE g (x # xs) = bindE (g x) (\<lambda>v. bindE (mapE g xs) (\<lambda>vs. Inr (v # vs)))"

section \<open>Characters and strings (Python \<open>str\<close> methods)\<close>

definition is_space :: "char \<Rightarrow> bool" where
  "is_space ch = (of_char ch \<in> {9, 10, 11, 12, 13, 28, 29, 30, 31, 32, 133, 160 :: nat})"

definition is_digit :: "char \<Rightarrow> bool" where
  "is_digit ch = (48 \<le> (of_char ch :: nat) \<and> (of_char ch :: nat) \<le> 57)"

definition is_upper :: "char \<Rightarrow> bool" where
  "is_upper ch = (let n = of_char ch :: nat in
     (65 \<le> n \<and> n \<le> 90) \<or> (192 \<le> n \<and> n \<le> 222 \<and> n \<noteq> 215))"

definition lower_char :: "char \<Rightarrow> char" where
  "lower_char ch = (if is_upper ch then char_of (of_char ch + 32 :: nat) else ch)"

text \<open>\<open>s.lower()\<close>\<close>

definition lower :: "string \<Rightarrow> string" where
  "lower s = map lower_char s"

text \<open>\<open>s.strip()\<close>\<close>

definition strip :: "string \<Rightarrow> string" where
  "strip s = rev (dropWhile is_space (rev (dropWhile is_space s)))"

text \<open>\<open>s.split()\<close>: the maximal runs of non-whitespace characters. The first argument
  is the word being read.\<close>

fun split_acc :: "string \<Rightarrow> string \<Rightarrow> string list" where
  "split_acc cur [] = (if cur = [] then [] else [cur])"
| "split_acc cur (ch # s) =
     (if is_space ch then (if cur = [] then split_acc [] s else cur # split_acc [] s)
      else split_acc (cur @ [ch]) s)"

definition split :: "string \<Rightarrow> string list" where
  "split s = split_acc [] s"

text \<open>\<open>s.split(sep)\<close> for a one-character separator: always at least one piece.\<close>

fun split_on_acc :: "char \<Rightarrow> string \<Rightarrow> string \<Rightarrow> string list" where
  "split_on_acc sep cur [] = [cur]"
| "split_on_acc sep cur (ch # s) =
     (if ch = sep then cur # split_on_acc sep [] s else split_on_acc sep (cur @ [ch]) s)"

definition split_on :: "char \<Rightarrow> string \<Rightarrow> string list" where
  "split_on sep s = split_on_acc sep [] s"

text \<open>\<open>sep.join(parts)\<close>\<close>

fun join :: "string \<Rightarrow> string list \<Rightarrow> string" where
  "join sep [] = []"
| "join sep [x] = x"
| "join sep (x # y # ys) = x @ sep @ join sep (y # ys)"

text \<open>The value of a run of decimal digits, and of \<open>float\<close> on digits with an optional
  fraction (an empty fraction stands for none).\<close>

definition digit_val :: "char \<Rightarrow> nat" where
  "digit_val ch = of_char ch - 48"

definition digits_val :: "string \<Rightarrow> nat" where
  "digits_val ds = foldl (\<lambda>a ch. 10 * a + digit_val ch) 0 ds"

definition decimal_val :: "string \<Rightarrow> string \<Rightarrow> rat" where
  "decimal_val ds fs = of_nat (digits_val ds) + of_nat (digits_val fs) / 10 ^ length fs"

text \<open>\<open>str(n)\<close> for a non-negative integer.\<close>

fun str_nat_acc :: "nat \<Rightarrow> nat \<Rightarrow> string \<Rightarrow> string" where
  "str_nat_acc 0 n acc = acc"
| "str_nat_acc (Suc fuel) n acc =
     (if n < 10 then char_of (48 + n) # acc
      else str_nat_acc fuel (n div 10) (char_of (48 + n mod 10) # acc))"

definition str_nat :: "nat \<Rightarrow> string" where
  "str_nat n = str_nat_acc (Suc n) n []"

section \<open>nutrition.py: Nutrients\<close>

record Nutrients =
  c :: rat
  p :: rat
  f :: rat
  cal :: rat

text \<open>\<open>Nutrients()\<close>: every field defaults to 0.\<close>

definition Nutrients0 :: Nutrients where
  "Nutrients0 = \<lparr>c = 0, p = 0, f = 0, cal = 0\<rparr>"

text \<open>\<open>__add__\<close>, \<open>__mul__\<close>, \<open>__truediv__\<close>\<close>

definition nadd :: "Nutrients \<Rightarrow> Nutrients \<Rightarrow> Nutrients" where
  "nadd a b = \<lparr>c = c a + c b, p = p a + p b, f = f a + f b, cal = cal a + cal b\<rparr>"

definition nmul :: "Nutrients \<Rightarrow> rat \<Rightarrow> Nutrients" where
  "nmul a n = \<lparr>c = c a * n, p = p a * n, f = f a * n, cal = cal a * n\<rparr>"

definition truediv :: "Nutrients \<Rightarrow> rat \<Rightarrow> error + Nutrients" where
  "truediv a n =
     (if n = 0 then Inl ZeroDivisionError
      else Inr \<lparr>c = c a / n, p = p a / n, f = f a / n, cal = cal a / n\<rparr>)"

text \<open>\<open>Nutrients.avg\<close>: the loop adds the items to a zero total from the left, then the
  total is divided by the number of items.\<close>

definition avg :: "Nutrients list \<Rightarrow> error + Nutrients" where
  "avg items = truediv (foldl nadd Nutrients0 items) (of_nat (length items))"

section \<open>nutrition.py: parse_quantity\<close>

text \<open>
  The pattern \<^verbatim>\<open>^(\d+(?:\.\d+)?)\s*(g|cup)?\s*(.+)$\<close> is matched by backtracking: each
  greedy element first takes as much as it can and gives characters back only when the
  rest of the pattern fails. Every element below is a function of the text still to be
  read and of a continuation for the rest of the pattern; it returns the first success in
  that order of attempts.
\<close>

text \<open>\<^verbatim>\<open>(.+)$\<close>: one or more characters other than the line feed, up to the end of
  the text or up to a line feed that ends the text. The result is group 3.\<close>

definition re_rest :: "string \<Rightarrow> string option" where
  "re_rest s =
     (let body = takeWhile (\<lambda>ch. ch \<noteq> CHR 0x0A) s; tail = dropWhile (\<lambda>ch. ch \<noteq> CHR 0x0A) s
      in if body \<noteq> [] \<and> (tail = [] \<or> tail = [CHR 0x0A]) then Some body else None)"

text \<open>\<^verbatim>\<open>\s*\<close>\<close>

fun re_ws :: "(string \<Rightarrow> 'a option) \<Rightarrow> string \<Rightarrow> 'a option" where
  "re_ws k [] = k []"
| "re_ws k (ch # s) =
     (if is_space ch
      then (case re_ws k s of Some r \<Rightarrow> Some r | None \<Rightarrow> k (ch # s))
      else k (ch # s))"

text \<open>\<^verbatim>\<open>(g|cup)?\<close>: the alternatives in order, then the empty match (group 2 unset).\<close>

definition re_unit :: "(string option \<Rightarrow> string \<Rightarrow> 'a option) \<Rightarrow> string \<Rightarrow> 'a option" where
  "re_unit k s =
     (case (if take 1 s = ''g'' then k (Some ''g'') (drop 1 s) else None) of
        Some r \<Rightarrow> Some r
      | None \<Rightarrow>
         (case (if take 3 s = ''cup'' then k (Some ''cup'') (drop 3 s) else None) of
            Some r \<Rightarrow> Some r
          | None \<Rightarrow> k None s))"

text \<open>\<^verbatim>\<open>\d+\<close>: the second argument is the run of digits read so far.\<close>

fun re_digits :: "(string \<Rightarrow> string \<Rightarrow> 'a option) \<Rightarrow> string \<Rightarrow> string \<Rightarrow> 'a option" where
  "re_digits k ds [] = (if ds = [] then None else k ds [])"
| "re_digits k ds (ch # s) =
     (case (if is_digit ch then re_digits k (ds @ [ch]) s else None) of
        Some r \<Rightarrow> Some r
      | None \<Rightarrow> if ds = [] then None else k ds (ch # s))"

text \<open>\<^verbatim>\<open>(?:\.\d+)?\<close>: the continuation gets the digits of the fraction, none when the
  group is skipped.\<close>

definition re_frac :: "(string \<Rightarrow> string \<Rightarrow> 'a option) \<Rightarrow> string \<Rightarrow> 'a option" where
  "re_frac k s =
     (case (case s of [] \<Rightarrow> None
                    | ch # s' \<Rightarrow> if ch = CHR ''.'' then re_digits k [] s' else None) of
        Some r \<Rightarrow> Some r
      | None \<Rightarrow> k [] s)"

text \<open>The whole pattern: the digits and fraction of group 1, group 2, group 3.\<close>

definition re_quantity :: "string \<Rightarrow> (string \<times> string \<times> string option \<times> string) option" where
  "re_quantity text =
     re_digits (\<lambda>ds s1.
       re_frac (\<lambda>fs s2.
         re_ws (re_unit (\<lambda>u s3.
           re_ws (\<lambda>s4. map_option (\<lambda>r. (ds, fs, u, r)) (re_rest s4)) s3)) s2) s1) [] text"

definition parse_quantity :: "string \<Rightarrow> rat \<times> string option \<times> string" where
  "parse_quantity text0 =
     (let text = lower (strip text0) in
      if take 5 text = ''half '' then (1 / 2, None, drop 5 text)
      else (case re_quantity text of
              Some (ds, fs, u, r) \<Rightarrow> (decimal_val ds fs, u, r)
            | None \<Rightarrow> (1, None, text)))"

section \<open>nutrition.py: NutritionDB\<close>

text \<open>An entry of \<open>self.items\<close>: the four nutrient fields and the reference serving.\<close>

record Item = Nutrients +
  serving_amt :: rat
  serving_unit :: string

text \<open>\<open>self.items\<close> is a dict: an association list in insertion order, which is the
  order of iteration. Storing under a key that is present replaces the value in place.\<close>

type_synonym db = "(string \<times> Item) list"

text \<open>The score of one name in \<open>match\<close>, for the set of words of the text.\<close>

definition score :: "string set \<Rightarrow> string \<Rightarrow> rat" where
  "score text_words name =
     (let name_words = set (split name); overlap = card (text_words \<inter> name_words)
      in if name_words \<noteq> {} then of_nat overlap / of_nat (card name_words) else 0)"

fun match_loop :: "string set \<Rightarrow> string list \<Rightarrow> string option \<times> rat \<Rightarrow> string option \<times> rat" where
  "match_loop text_words [] best = best"
| "match_loop text_words (name # names) (best, best_score) =
     (if score text_words name > best_score
      then match_loop text_words names (Some name, score text_words name)
      else match_loop text_words names (best, best_score))"

definition match :: "db \<Rightarrow> string \<Rightarrow> string option" where
  "match items text0 =
     (let text = strip (lower text0) in
      if map_of items text \<noteq> None then Some text
      else (case match_loop (set (split text)) (map fst items) (None, 0) of
              (best, best_score) \<Rightarrow> if best_score > 1 / 2 then best else None))"

text \<open>Python division of two numbers.\<close>

definition py_div :: "rat \<Rightarrow> rat \<Rightarrow> error + rat" where
  "py_div a b = (if b = 0 then Inl ZeroDivisionError else Inr (a / b))"

text \<open>\<open>get\<close>. The test \<open>not name\<close> is true for no match and for the empty name. The
  warning logged on a unit mismatch is an effect outside the model.\<close>

definition get :: "db \<Rightarrow> string \<Rightarrow> error + Nutrients" where
  "get items menu_text =
     (case parse_quantity menu_text of (qty, unit, item_text) \<Rightarrow>
        (case match items item_text of
           None \<Rightarrow> Inl (ValueError (''Item not found: '' @ menu_text))
         | Some name \<Rightarrow>
            if name = [] then Inl (ValueError (''Item not found: '' @ menu_text))
            else
              (case map_of items name of
                 None \<Rightarrow> Inl (KeyError name)
               | Some item \<Rightarrow>
                  bindE (if unit = Some ''g'' \<and> serving_unit item = ''g''
                           then py_div qty (serving_amt item)
                         else if unit = Some (serving_unit item)
                           then py_div qty (serving_amt item)
                         else if unit = None
                           then py_div qty (serving_amt item)
                         else Inr qty)
                    (\<lambda>ratio. Inr \<lparr>c = c item * ratio, p = p item * ratio,
                                   f = f item * ratio, cal = cal item * ratio\<rparr>))))"

text \<open>\<open>exists\<close>\<close>

definition exists_item :: "db \<Rightarrow> string \<Rightarrow> bool" where
  "exists_item items menu_text =
     (case parse_quantity menu_text of (qty, unit, item_text) \<Rightarrow>
        match items item_text \<noteq> None)"

text \<open>
  \<open>_load\<close>, from the lines of the file. \<open>float\<close> is applied to text of the file,
  which can be anything; the conversion is a parameter \<open>to_float\<close> that returns the
  number or the exception \<open>float\<close> raises. The fields of an entry are evaluated in the
  order of the dict display, so the first conversion that fails decides the exception.
\<close>

definition row_cols :: "string \<Rightarrow> string list" where
  "row_cols line = map strip (butlast (tl (split_on CHR ''|'' line)))"

definition row_item :: "(string \<Rightarrow> error + rat) \<Rightarrow> string list \<Rightarrow> error + (string \<times> Item)" where
  "row_item to_float cols =
     bindE (to_float (cols ! 2)) (\<lambda>vc.
     bindE (to_float (cols ! 3)) (\<lambda>vp.
     bindE (to_float (cols ! 4)) (\<lambda>vf.
     bindE (to_float (cols ! 5)) (\<lambda>amt.
     bindE (to_float (cols ! 7)) (\<lambda>vcal.
       Inr (lower (cols ! 1),
            \<lparr>c = vc, p = vp, f = vf, cal = vcal,
             serving_amt = amt, serving_unit = lower (cols ! 6)\<rparr>))))))"

fun load_loop :: "(string \<Rightarrow> error + rat) \<Rightarrow> string list \<Rightarrow> db \<Rightarrow> error + db" where
  "load_loop to_float [] items = Inr items"
| "load_loop to_float (line # lines) items =
     (if strip line = [] \<or> CHR ''|'' \<notin> set line then load_loop to_float lines items
      else if length (row_cols line) \<ge> 8
        then bindE (row_item to_float (row_cols line))
               (\<lambda>(name, item). load_loop to_float lines (AList.update name item items))
        else load_loop to_float lines items)"

definition load :: "(string \<Rightarrow> error + rat) \<Rightarrow> string list \<Rightarrow> error + db" where
  "load to_float lines = load_loop to_float (drop 2 lines) []"

section \<open>menu.py: Menu\<close>

text \<open>The fields of a loaded \<open>Menu\<close>. A choose count is the value of a run of digits,
  a group id is a counter from 1: both are natural numbers. \<open>choose_groups\<close> is a dict
  that is iterated, \<open>carbs_per_day\<close> a dict that is only looked up.\<close>

record Menu =
  extra :: Nutrients
  carbs_per_day :: "string \<rightharpoonup> rat"
  carbs_item :: "string option"
  fixed :: "string list list"
  options :: "(string list \<times> nat \<times> nat) list"
  choose_groups :: "(nat \<times> nat) list"

text \<open>\<open>all_items\<close>. The carbs item is added when it is truthy: set and not empty.\<close>

definition all_items :: "Menu \<Rightarrow> string list" where
  "all_items menu =
     concat (fixed menu) @ concat (map fst (options menu)) @
     (case carbs_item menu of
        None \<Rightarrow> []
      | Some item \<Rightarrow> if item \<noteq> [] then [item] else [])"

section \<open>main.py\<close>

definition DAYS :: "string list" where
  "DAYS = [''upper'', ''lower'', ''rest'']"

text \<open>\<open>check_menu\<close>: the second loop, over \<open>choose_groups\<close>.\<close>

fun check_groups :: "(string list \<times> nat \<times> nat) list \<Rightarrow> (nat \<times> nat) list \<Rightarrow> error + unit" where
  "check_groups opts [] = Inr ()"
| "check_groups opts ((gid, n) # groups) =
     (let opts_of = map fst (filter (\<lambda>(g, m, i). i = gid) opts) in
      if length opts_of < n
      then Inl (ValueError (''[choose '' @ str_nat n @ ''] has only ''
                  @ str_nat (length opts_of) @ '' option(s)''))
      else check_groups opts groups)"

definition check_menu :: "db \<Rightarrow> Menu \<Rightarrow> error + unit" where
  "check_menu items menu =
     (let missing = filter (\<lambda>item. \<not> exists_item items item) (all_items menu) in
      if missing \<noteq> []
      then Inl (ValueError (''Not found in nutrition_facts.md:\<newline>''
                  @ join ''\<newline>'' (map (\<lambda>m. ''   - '' @ m) missing)))
      else check_groups (options menu) (choose_groups menu))"

definition get_nutrients :: "db \<Rightarrow> string list \<Rightarrow> error + Nutrients" where
  "get_nutrients items grp = bindE (mapE (get items) grp) avg"

text \<open>\<open>calculate\<close>, loop by loop. The first loop adds the fixed groups.\<close>

fun add_fixed :: "db \<Rightarrow> string list list \<Rightarrow> Nutrients \<Rightarrow> error + Nutrients" where
  "add_fixed items [] totals = Inr totals"
| "add_fixed items (grp # groups) totals =
     bindE (get_nutrients items grp) (\<lambda>v. add_fixed items groups (nadd totals v))"

text \<open>\<open>grouped.setdefault(id, (n, []))[1].append(v)\<close>: a new id is entered at the end
  with this entry's count; a known id keeps its place and its first count.\<close>

definition add_choice ::
  "nat \<Rightarrow> nat \<Rightarrow> Nutrients \<Rightarrow> (nat \<times> nat \<times> Nutrients list) list \<Rightarrow> (nat \<times> nat \<times> Nutrients list) list" where
  "add_choice gid n v grouped =
     (case map_of grouped gid of
        None \<Rightarrow> grouped @ [(gid, (n, [v]))]
      | Some (n0, choices) \<Rightarrow> AList.update gid (n0, choices @ [v]) grouped)"

fun group_options ::
  "db \<Rightarrow> (string list \<times> nat \<times> nat) list \<Rightarrow> (nat \<times> nat \<times> Nutrients list) list
     \<Rightarrow> error + (nat \<times> nat \<times> Nutrients list) list" where
  "group_options items [] grouped = Inr grouped"
| "group_options items ((grp, n, gid) # opts) grouped =
     bindE (get_nutrients items grp)
       (\<lambda>v. group_options items opts (add_choice gid n v grouped))"

fun add_grouped :: "(nat \<times> nat \<times> Nutrients list) list \<Rightarrow> Nutrients \<Rightarrow> error + Nutrients" where
  "add_grouped [] totals = Inr totals"
| "add_grouped ((gid, (n, choices)) # grouped) totals =
     bindE (avg choices) (\<lambda>a. add_grouped grouped (nadd totals (nmul a (of_nat n))))"

text \<open>The per-day carbs. Both operands of \<open>and\<close> are tested for truth: the carbs item
  must be set and not empty, the amount of the day present and not zero. The amount is
  put into the text by the formatting of a float, which is a parameter \<open>str_amount\<close>.\<close>

definition add_carbs ::
  "(rat \<Rightarrow> string) \<Rightarrow> db \<Rightarrow> Menu \<Rightarrow> string \<Rightarrow> Nutrients \<Rightarrow> error + Nutrients" where
  "add_carbs str_amount items menu day totals =
     (case carbs_item menu of
        None \<Rightarrow> Inr totals
      | Some item \<Rightarrow>
         if item = [] then Inr totals
         else (case carbs_per_day menu day of
                 None \<Rightarrow> Inr totals
               | Some grams \<Rightarrow>
                  if grams = 0 then Inr totals
                  else bindE (get items (str_amount grams @ ''g '' @ item))
                         (\<lambda>v. Inr (nadd totals v))))"

definition calculate ::
  "(rat \<Rightarrow> string) \<Rightarrow> db \<Rightarrow> Menu \<Rightarrow> string \<Rightarrow> error + Nutrients" where
  "calculate str_amount items menu day =
     bindE (add_fixed items (fixed menu) Nutrients0) (\<lambda>t1.
     bindE (group_options items (options menu) []) (\<lambda>grouped.
     bindE (add_grouped grouped t1) (\<lambda>t2.
     bindE (add_carbs str_amount items menu day t2) (\<lambda>t3.
       let extra_cal = c (extra menu) * 4 + p (extra menu) * 4 + f (extra menu) * 9 in
       Inr (nadd t3 \<lparr>c = c (extra menu), p = p (extra menu), f = f (extra menu),
                     cal = cal (extra menu) + extra_cal\<rparr>)))))"

text \<open>\<open>format_row\<close>: the numbers of a row before they are rounded and laid out (the
  rendering of the text is outside the model). The three shares divide by the calories
  of the macros.\<close>

record Row =
  row_day :: string
  row_cal :: rat
  row_c :: rat
  row_c_pct :: rat
  row_p :: rat
  row_p_pct :: rat
  row_f :: rat
  row_f_pct :: rat

definition format_row :: "string \<Rightarrow> Nutrients \<Rightarrow> error + Row" where
  "format_row day totals =
     (let c_cal = c totals * 4; p_cal = p totals * 4; f_cal = f totals * 9;
          total_cal = p_cal + c_cal + f_cal in
      bindE (py_div c_cal total_cal) (\<lambda>cq.
      bindE (py_div p_cal total_cal) (\<lambda>pq.
      bindE (py_div f_cal total_cal) (\<lambda>fq.
        Inr \<lparr>row_day = day, row_cal = cal totals, row_c = c totals, row_c_pct = cq * 100,
             row_p = p totals, row_p_pct = pq * 100, row_f = f totals, row_f_pct = fq * 100\<rparr>))))"

text \<open>\<open>main\<close>, from the loaded table and menu to the rows of the report, or to the
  exception that ends the run: the validation, then one total and one row per day.\<close>

definition main :: "(rat \<Rightarrow> string) \<Rightarrow> db \<Rightarrow> Menu \<Rightarrow> error + Row list" where
  "main str_amount items menu =
     bindE (check_menu items menu) (\<lambda>u.
       mapE (\<lambda>day. bindE (calculate str_amount items menu day) (format_row day)) DAYS)"

section \<open>Example inputs\<close>

text \<open>A table with one food, the same table with a zero reference serving, and a menu
  with a per-day portion of that food: 150 on the rest day, 0 on the lower day, none on
  the upper day. \<open>str_amount_ex\<close> is the text of the two amounts as floats.\<close>

definition rice_table :: db where
  "rice_table =
     [(''brown rice'', \<lparr>c = 20, p = 3, f = 1, cal = 110, serving_amt = 100, serving_unit = ''g''\<rparr>)]"

definition zero_serving_table :: db where
  "zero_serving_table =
     [(''brown rice'', \<lparr>c = 20, p = 3, f = 1, cal = 110, serving_amt = 0, serving_unit = ''g''\<rparr>)]"

definition rice_menu :: Menu where
  "rice_menu = \<lparr>extra = Nutrients0, carbs_per_day = [''rest'' \<mapsto> 150, ''lower'' \<mapsto> 0],
      carbs_item = Some ''brown rice'', fixed = [], options = [], choose_groups = []\<rparr>"

definition str_amount_ex :: "rat \<Rightarrow> string" where
  "str_amount_ex q = (if q = 150 then ''150.0'' else ''0.0'')"

text \<open>A table with one food and a menu that names it and two foods the table lacks.\<close>

definition egg_table :: db where
  "egg_table =
     [(''egg'', \<lparr>c = 1, p = 6, f = 5, cal = 70, serving_amt = 1, serving_unit = ''egg''\<rparr>)]"

definition missing_menu :: Menu where
  "missing_menu = \<lparr>extra = Nutrients0, carbs_per_day = Map.empty, carbs_item = None,
      fixed = [[''tofu''], [''2 egg'']], options = [([''ham''], 1, 1)], choose_groups = [(1, 1)]\<rparr>"

text \<open>A table with one food whose name begins with the letter of a unit.\<close>

definition grapes_table :: db where
  "grapes_table =
     [(''grapes'', \<lparr>c = 17, p = 1, f = 0, cal = 69, serving_amt = 100, serving_unit = ''g''\<rparr>)]"

section \<open>Wording of the specification\<close>

text \<open>The three cases in which the ratio of \<open>get\<close> divides by the reference serving:
  both units are grams, or the requested unit is the unit of the record, or no unit was
  requested.\<close>

definition divides_by_serving :: "string option \<Rightarrow> Item \<Rightarrow> bool" where
  "divides_by_serving unit item =
     ((unit = Some ''g'' \<and> serving_unit item = ''g'') \<or> unit = Some (serving_unit item)
      \<or> unit = None)"

text \<open>A menu text whose remainder has a score above one half against some name of the
  table.\<close>

definition matches_with_score :: "db \<Rightarrow> string \<Rightarrow> bool" where
  "matches_with_score items menu_text =
     (case parse_quantity menu_text of (qty, unit, item_text) \<Rightarrow>
        list_ex (\<lambda>name. score (set (split (strip (lower item_text)))) name > 1 / 2)
          (map fst items))"

text \<open>A line of the table that \<open>_load\<close> turns into an entry: not blank, with a column
  separator, and with at least 8 columns.\<close>

definition data_row :: "string \<Rightarrow> bool" where
  "data_row line = (strip line \<noteq> [] \<and> CHR ''|'' \<in> set line \<and> length (row_cols line) \<ge> 8)"

text \<open>For the examples, the conversion of a run of digits to a number; any other text
  is refused, as \<open>float\<close> refuses what is not a number.\<close>

definition float_ex :: "string \<Rightarrow> error + rat" where
  "float_ex s =
     (if s \<noteq> [] \<and> list_all is_digit s then Inr (of_nat (digits_val s))
      else Inl (ValueError (''could not convert string to float: '' @ s)))"

text \<open>A table file with a header, a separator and two rows for the same food, the
  names differing in case.\<close>

definition oats_lines :: "string list" where
  "oats_lines =
     [''| id | name | carbs | protein | fat | amount | unit | kcal |\<newline>'',
      ''|----|------|-------|---------|-----|--------|------|------|\<newline>'',
      ''|1|Oats|60|13|7|100|g|380|\<newline>'',
      ''|2| OATS |66|17|7|40|G|389|\<newline>'']"

text \<open>The aggregation of the options as the specification words it. An option is an
  item-group, a required count and a group id; the options are taken with the values
  their item-groups resolve to, in the same order. The ids of the
  choice groups in order of first appearance; the required count of a group, carried by
  its first option; the values of the options tagged with an id; the average as sum
  divided by count; and the sum, over the groups, of the average of all the values of
  the group times its required count.\<close>

definition group_ids :: "(string list \<times> nat \<times> nat) list \<Rightarrow> nat list" where
  "group_ids opts = rev (remdups (rev (map (\<lambda>opt. snd (snd opt)) opts)))"

definition required_count :: "(string list \<times> nat \<times> nat) list \<Rightarrow> nat \<Rightarrow> nat" where
  "required_count opts gid =
     (case filter (\<lambda>opt. snd (snd opt) = gid) opts of
        [] \<Rightarrow> 0
      | opt # rest \<Rightarrow> fst (snd opt))"

definition tagged_values ::
  "(string list \<times> nat \<times> nat) list \<Rightarrow> Nutrients list \<Rightarrow> nat \<Rightarrow> Nutrients list" where
  "tagged_values opts vals gid =
     map snd (filter (\<lambda>ov. snd (snd (fst ov)) = gid) (zip opts vals))"

definition mean :: "Nutrients list \<Rightarrow> Nutrients" where
  "mean xs = \<lparr>c = sum_list (map c xs) / of_nat (length xs),
              p = sum_list (map p xs) / of_nat (length xs),
              f = sum_list (map f xs) / of_nat (length xs),
              cal = sum_list (map cal xs) / of_nat (length xs)\<rparr>"

definition options_total :: "(string list \<times> nat \<times> nat) list \<Rightarrow> Nutrients list \<Rightarrow> Nutrients" where
  "options_total opts vals =
     foldl nadd Nutrients0
       (map (\<lambda>gid. nmul (mean (tagged_values opts vals gid)) (of_nat (required_count opts gid)))
          (group_ids opts))"

text \<open>A menu with two choice groups over the table of the egg: a choose-2 group with
  three options (1, 2 and 3 eggs) and a choose-1 group with one option of two items.\<close>

definition choice_menu :: Menu where
  "choice_menu = \<lparr>extra = Nutrients0, carbs_per_day = Map.empty, carbs_item = None,
      fixed = [],
      options = [([''egg''], 2, 1), ([''2 egg''], 2, 1), ([''3 egg'', ''egg''], 1, 2),
                 ([''3 egg''], 2, 1)],
      choose_groups = [(1, 2), (2, 1)]\<rparr>"

section \<open>Properties of Nutrients\<close>

lemma foldl_nadd_fields:
  "foldl nadd a xs =
     \<lparr>c = c a + sum_list (map c xs), p = p a + sum_list (map p xs),
      f = f a + sum_list (map f xs), cal = cal a + sum_list (map cal xs)\<rparr>"
  by (induction xs arbitrary: a) (simp_all add: nadd_def add.assoc)

lemma sum_list_field_mset:
  fixes g :: "Nutrients \<Rightarrow> rat"
  assumes "mset ys = mset xs"
  shows "sum_list (map g ys) = sum_list (map g xs)"
proof -
  have "mset (map g ys) = mset (map g xs)"
    using assms by (metis mset_map)
  then show ?thesis
    by (metis sum_mset_sum_list)
qed

text \<open>
  Claim C8. For a non-empty list of values, \<open>avg\<close> returns the fieldwise sum divided by
  the length of the list, and the result is the same for every reordering of the list;
  on the empty list \<open>avg\<close> fails (with the division error).
\<close>

theorem avg_is_sum_over_length:
  "(xs \<noteq> [] \<longrightarrow>
      avg xs = Inr \<lparr>c = sum_list (map c xs) / of_nat (length xs),
                     p = sum_list (map p xs) / of_nat (length xs),
                     f = sum_list (map f xs) / of_nat (length xs),
                     cal = sum_list (map cal xs) / of_nat (length xs)\<rparr>
      \<and> (\<forall>ys. mset ys = mset xs \<longrightarrow> avg ys = avg xs))
   \<and> avg [] = Inl ZeroDivisionError"
proof (intro conjI impI allI)
  assume ne: "xs \<noteq> []"
  show "avg xs = Inr \<lparr>c = sum_list (map c xs) / of_nat (length xs),
                     p = sum_list (map p xs) / of_nat (length xs),
                     f = sum_list (map f xs) / of_nat (length xs),
                     cal = sum_list (map cal xs) / of_nat (length xs)\<rparr>"
    using ne by (simp add: avg_def truediv_def foldl_nadd_fields Nutrients0_def)
next
  fix ys
  assume ne: "xs \<noteq> []" and perm: "mset ys = mset xs"
  have len: "length ys = length xs"
    using perm by (metis size_mset)
  show "avg ys = avg xs"
    by (simp add: avg_def foldl_nadd_fields len
        sum_list_field_mset [OF perm, of c] sum_list_field_mset [OF perm, of p]
        sum_list_field_mset [OF perm, of f] sum_list_field_mset [OF perm, of cal])
next
  show "avg [] = Inl ZeroDivisionError"
    by (simp add: avg_def truediv_def)
qed

theorem avg_is_sum_over_length_witness:
  "avg [\<lparr>c = 10, p = 0, f = 0, cal = 40\<rparr>, \<lparr>c = 0, p = 10, f = 0, cal = 40\<rparr>]
     = Inr \<lparr>c = 5, p = 5, f = 0, cal = 40\<rparr>
   \<and> avg [\<lparr>c = 0, p = 10, f = 0, cal = 40\<rparr>, \<lparr>c = 10, p = 0, f = 0, cal = 40\<rparr>]
     = Inr \<lparr>c = 5, p = 5, f = 0, cal = 40\<rparr>"
  using avg_is_sum_over_length
    [of "[\<lparr>c = 10, p = 0, f = 0, cal = 40\<rparr>, \<lparr>c = 0, p = 10, f = 0, cal = 40\<rparr>]"]
  by (simp add: avg_def truediv_def nadd_def Nutrients0_def)

section \<open>The daily total: the extra adjustment\<close>

lemma add_carbs_extra_irrelevant:
  "add_carbs sa items (menu\<lparr>extra := x\<rparr>) day t = add_carbs sa items menu day t"
  by (simp add: add_carbs_def split: option.splits)

lemma nadd_zero_right: "nadd t \<lparr>c = 0, p = 0, f = 0, cal = 0\<rparr> = t"
  by (simp add: nadd_def)

text \<open>
  Claim C4. For every day, the total is the total of the same menu without its extra
  block, plus the extra adjustment once: the carb, protein and fat grams as they are,
  and for the calories the literal figure plus carbs * 4 + protein * 4 + fat * 9. The run
  fails with the extra block exactly when it fails without it.
\<close>

theorem extra_added_once:
  "calculate sa items menu day =
     (case calculate sa items (menu\<lparr>extra := Nutrients0\<rparr>) day of
        Inl e \<Rightarrow> Inl e
      | Inr t \<Rightarrow>
         Inr \<lparr>c = c t + c (extra menu), p = p t + p (extra menu), f = f t + f (extra menu),
              cal = cal t + (cal (extra menu)
                      + (c (extra menu) * 4 + p (extra menu) * 4 + f (extra menu) * 9))\<rparr>)"
  by (simp add: calculate_def bindE_def add_carbs_extra_irrelevant Nutrients0_def
      nadd_zero_right nadd_def split: sum.splits)

theorem extra_added_once_witness:
  "calculate (\<lambda>q. ''150.0'')
     [(''egg'', \<lparr>c = 1, p = 6, f = 5, cal = 70, serving_amt = 1, serving_unit = ''egg''\<rparr>)]
     \<lparr>extra = \<lparr>c = 10, p = 0, f = 0, cal = 5\<rparr>, carbs_per_day = Map.empty, carbs_item = None,
      fixed = [[''egg'']], options = [], choose_groups = []\<rparr> ''rest''
   = Inr \<lparr>c = 11, p = 6, f = 5, cal = 115\<rparr>"
proof -
  have base: "calculate (\<lambda>q. ''150.0'')
     [(''egg'', \<lparr>c = 1, p = 6, f = 5, cal = 70, serving_amt = 1, serving_unit = ''egg''\<rparr>)]
     \<lparr>extra = Nutrients0, carbs_per_day = Map.empty, carbs_item = None,
      fixed = [[''egg'']], options = [], choose_groups = []\<rparr> ''rest''
   = Inr \<lparr>c = 1, p = 6, f = 5, cal = 70\<rparr>"
    by code_simp
  show ?thesis
    using extra_added_once [of "\<lambda>q. ''150.0''"
      "[(''egg'', \<lparr>c = 1, p = 6, f = 5, cal = 70, serving_amt = 1, serving_unit = ''egg''\<rparr>)]"
      "\<lparr>extra = \<lparr>c = 10, p = 0, f = 0, cal = 5\<rparr>, carbs_per_day = Map.empty, carbs_item = None,
        fixed = [[''egg'']], options = [], choose_groups = []\<rparr>" "''rest''"]
    by (simp add: base)
qed

section \<open>The daily total: the per-day carbs\<close>

lemma nadd_swap: "nadd (nadd t a) b = nadd (nadd t b) a"
  by (simp add: nadd_def)

lemma add_carbs_no_item: "add_carbs sa items (menu\<lparr>carbs_item := None\<rparr>) day t = Inr t"
  by (simp add: add_carbs_def)

text \<open>
  Claim C5, as amended. When a non-empty carbs item is configured and the day has a
  configured amount other than zero, the total is the total of the menu without the carbs
  item, plus the value that \<open>get\<close> resolves for the text of the amount, \<open>g\<close>, a space and
  the carbs item (and the run fails if that lookup fails). A day with no configured
  amount, or with the amount zero, gets nothing from the carbs item: no lookup is made.
\<close>

theorem carbs_item_added:
  "(carbs_item menu = Some item \<and> item \<noteq> [] \<and> carbs_per_day menu day = Some grams \<and> grams \<noteq> 0
      \<longrightarrow> calculate sa items menu day =
            bindE (calculate sa items (menu\<lparr>carbs_item := None\<rparr>) day)
              (\<lambda>t. bindE (get items (sa grams @ ''g '' @ item)) (\<lambda>v. Inr (nadd t v))))
   \<and> (carbs_per_day menu day = None \<or> carbs_per_day menu day = Some 0
      \<longrightarrow> calculate sa items menu day = calculate sa items (menu\<lparr>carbs_item := None\<rparr>) day)"
proof (intro conjI impI)
  assume "carbs_item menu = Some item \<and> item \<noteq> [] \<and> carbs_per_day menu day = Some grams \<and> grams \<noteq> 0"
  then have carbs: "\<And>t. add_carbs sa items menu day t =
      bindE (get items (sa grams @ ''g '' @ item)) (\<lambda>v. Inr (nadd t v))"
    by (simp add: add_carbs_def)
  show "calculate sa items menu day =
            bindE (calculate sa items (menu\<lparr>carbs_item := None\<rparr>) day)
              (\<lambda>t. bindE (get items (sa grams @ ''g '' @ item)) (\<lambda>v. Inr (nadd t v)))"
    by (simp add: calculate_def carbs add_carbs_no_item bindE_def nadd_swap
        split: sum.splits)
next
  assume "carbs_per_day menu day = None \<or> carbs_per_day menu day = Some 0"
  then have carbs: "\<And>t. add_carbs sa items menu day t = Inr t"
    by (auto simp add: add_carbs_def split: option.splits)
  show "calculate sa items menu day = calculate sa items (menu\<lparr>carbs_item := None\<rparr>) day"
    by (simp add: calculate_def carbs add_carbs_no_item)
qed

theorem carbs_item_added_witness:
  "calculate str_amount_ex rice_table rice_menu ''rest''
     = Inr \<lparr>c = 30, p = 9 / 2, f = 3 / 2, cal = 165\<rparr>
   \<and> calculate str_amount_ex rice_table rice_menu ''upper'' = Inr \<lparr>c = 0, p = 0, f = 0, cal = 0\<rparr>"
proof -
  have base: "calculate str_amount_ex rice_table (rice_menu\<lparr>carbs_item := None\<rparr>) d
      = Inr \<lparr>c = 0, p = 0, f = 0, cal = 0\<rparr>" for d
    by (simp add: calculate_def rice_menu_def add_carbs_def bindE_def Nutrients0_def nadd_def)
  have look: "get rice_table (str_amount_ex 150 @ ''g '' @ ''brown rice'')
      = Inr \<lparr>c = 30, p = 9 / 2, f = 3 / 2, cal = 165\<rparr>"
    by code_simp
  have h1: "carbs_item rice_menu = Some ''brown rice'' \<and> ''brown rice'' \<noteq> []
      \<and> carbs_per_day rice_menu ''rest'' = Some 150 \<and> (150::rat) \<noteq> 0"
    by (simp add: rice_menu_def)
  have h2: "carbs_per_day rice_menu ''upper'' = None \<or> carbs_per_day rice_menu ''upper'' = Some 0"
    by (simp add: rice_menu_def)
  from carbs_item_added [of rice_menu "''brown rice''" "''rest''" 150 str_amount_ex rice_table] h1
  have r1: "calculate str_amount_ex rice_table rice_menu ''rest'' =
       bindE (calculate str_amount_ex rice_table (rice_menu\<lparr>carbs_item := None\<rparr>) ''rest'')
        (\<lambda>t. bindE (get rice_table (str_amount_ex 150 @ ''g '' @ ''brown rice''))
               (\<lambda>v. Inr (nadd t v)))"
    by blast
  from carbs_item_added [of rice_menu "''brown rice''" "''upper''" 150 str_amount_ex rice_table] h2
  have r2: "calculate str_amount_ex rice_table rice_menu ''upper'' =
       calculate str_amount_ex rice_table (rice_menu\<lparr>carbs_item := None\<rparr>) ''upper''"
    by blast
  show ?thesis
    using look by (simp add: r1 r2 base bindE_def nadd_def)
qed

text \<open>
  The claim as it is written fails on a day whose configured amount is zero: the lookup
  it describes raises, in the empty table for want of the item and in the table with a
  zero serving by the division, while \<open>calculate\<close> makes no lookup and returns a total.
\<close>

theorem carbs_zero_amount_counterexample:
  "carbs_item rice_menu = Some ''brown rice''
   \<and> carbs_per_day rice_menu ''lower'' = Some 0
   \<and> get [] (str_amount_ex 0 @ ''g '' @ ''brown rice'')
       = Inl (ValueError ''Item not found: 0.0g brown rice'')
   \<and> calculate str_amount_ex [] rice_menu ''lower'' = Inr \<lparr>c = 0, p = 0, f = 0, cal = 0\<rparr>
   \<and> exists_item zero_serving_table ''brown rice''
   \<and> get zero_serving_table (str_amount_ex 0 @ ''g '' @ ''brown rice'') = Inl ZeroDivisionError
   \<and> calculate str_amount_ex zero_serving_table rice_menu ''lower''
       = Inr \<lparr>c = 0, p = 0, f = 0, cal = 0\<rparr>"
  by code_simp

section \<open>Validation before aggregation\<close>

text \<open>
  Claim C7. Every item of \<open>all_items\<close> is tested with \<open>exists\<close>; when at least one is
  missing, the run ends with the one \<open>ValueError\<close> whose message lists every missing
  item, one per line and in the order of \<open>all_items\<close>. That is the result of \<open>main\<close>
  whatever the aggregation would do: no day total is computed.
\<close>

theorem validation_aggregates_missing:
  assumes "filter (\<lambda>item. \<not> exists_item items item) (all_items menu) \<noteq> []"
  shows "main sa items menu =
     Inl (ValueError (''Not found in nutrition_facts.md:\<newline>''
            @ join ''\<newline>'' (map (\<lambda>m. ''   - '' @ m)
                (filter (\<lambda>item. \<not> exists_item items item) (all_items menu)))))"
proof -
  have "check_menu items menu =
     Inl (ValueError (''Not found in nutrition_facts.md:\<newline>''
            @ join ''\<newline>'' (map (\<lambda>m. ''   - '' @ m)
                (filter (\<lambda>item. \<not> exists_item items item) (all_items menu)))))"
    unfolding check_menu_def Let_def using assms by (simp only: if_True simp_thms)
  then show ?thesis
    by (simp only: main_def bindE_def sum.case)
qed

theorem validation_aggregates_missing_witness:
  "main str_amount_ex egg_table missing_menu =
     Inl (ValueError ''Not found in nutrition_facts.md:\<newline>   - tofu\<newline>   - ham'')"
proof -
  have miss: "filter (\<lambda>item. \<not> exists_item egg_table item) (all_items missing_menu)
      = [''tofu'', ''ham'']"
    by code_simp
  then have ne: "filter (\<lambda>item. \<not> exists_item egg_table item) (all_items missing_menu) \<noteq> []"
    by simp
  show ?thesis
    using validation_aggregates_missing [OF ne, of str_amount_ex] by (simp add: miss)
qed

section \<open>The table: matching and lookup\<close>

lemma split_acc_Nil_iff: "split_acc cur s = [] \<Longrightarrow> cur = []"
  by (induction s arbitrary: cur) (auto split: if_splits)

lemma split_Nil: "split [] = []"
  by (simp add: split_def)

lemma score_pos_words:
  assumes "score tw name > 0"
  shows "tw \<noteq> {} \<and> name \<noteq> []"
proof -
  have nw: "set (split name) \<noteq> {}"
    using assms by (auto simp add: score_def Let_def split: if_splits)
  then have "name \<noteq> []"
    using split_Nil by auto
  moreover have "tw \<noteq> {}"
    using assms nw by (auto simp add: score_def Let_def split: if_splits)
  ultimately show ?thesis by simp
qed

lemma match_loop_result:
  "match_loop tw names (b, bs) = (b', bs') \<Longrightarrow>
     (b' = b \<and> bs' = bs \<and> (\<forall>n\<in>set names. score tw n \<le> bs))
     \<or> (\<exists>n\<in>set names. b' = Some n \<and> bs' = score tw n \<and> bs < bs'
          \<and> (\<forall>m\<in>set names. score tw m \<le> bs'))"
proof (induction names arbitrary: b bs)
  case Nil
  then show ?case by simp
next
  case (Cons name names)
  show ?case
  proof (cases "score tw name > bs")
    case True
    with Cons.prems have "match_loop tw names (Some name, score tw name) = (b', bs')"
      by simp
    from Cons.IH [OF this] True show ?thesis
      by (auto intro: less_imp_le order_trans less_trans)
  next
    case False
    with Cons.prems have "match_loop tw names (b, bs) = (b', bs')"
      by simp
    from Cons.IH [OF this] False show ?thesis
      by (auto intro: less_imp_le order_trans less_trans simp: not_less)
  qed
qed

lemma match_in_table:
  assumes "match items t = Some name"
  shows "\<exists>item. map_of items name = Some item"
proof (cases "map_of items (strip (lower t)) \<noteq> None")
  case True
  with assms show ?thesis
    by (auto simp add: match_def Let_def)
next
  case False
  obtain b' bs' where r: "match_loop (set (split (strip (lower t)))) (map fst items) (None, 0) = (b', bs')"
    by (cases "match_loop (set (split (strip (lower t)))) (map fst items) (None, 0)")
  with assms False have "b' = Some name"
    by (auto simp add: match_def Let_def split: if_splits)
  with match_loop_result [OF r] have "name \<in> set (map fst items)"
    by auto
  then show ?thesis
    by (metis map_of_eq_None_iff not_None_eq set_map)
qed

lemma match_above_half:
  assumes "list_ex (\<lambda>name. score (set (split (strip (lower t)))) name > 1 / 2) (map fst items)"
  shows "\<exists>name. match items t = Some name \<and> name \<noteq> []"
proof -
  let ?tw = "set (split (strip (lower t)))"
  from assms obtain n0 where n0: "n0 \<in> set (map fst items)" "score ?tw n0 > 1 / 2"
    by (auto simp add: list_ex_iff)
  show ?thesis
  proof (cases "map_of items (strip (lower t)) \<noteq> None")
    case True
    have "score ?tw n0 > 0" using n0(2) by simp
    then have "?tw \<noteq> {}" using score_pos_words by blast
    then have "strip (lower t) \<noteq> []" using split_Nil by auto
    with True show ?thesis
      by (simp add: match_def Let_def)
  next
    case False
    obtain b' bs' where r: "match_loop ?tw (map fst items) (None, 0) = (b', bs')"
      by (cases "match_loop ?tw (map fst items) (None, 0)")
    from match_loop_result [OF r] n0
    obtain n where n: "b' = Some n" "bs' = score ?tw n" "score ?tw n0 \<le> bs'"
      by fastforce
    then have half: "bs' > 1 / 2" using n0(2) by simp
    then have "score ?tw n > 0" using n(2) by simp
    then have "n \<noteq> []" using score_pos_words by blast
    with False r n half show ?thesis
      by (simp add: match_def Let_def)
  qed
qed

text \<open>The test \<open>not name\<close> of \<open>get\<close> also rejects a match whose name is the empty
  text, which \<open>exists\<close> accepts: a table row with an empty name cell is found by
  \<open>exists\<close> and not by \<open>get\<close>.\<close>

lemma empty_name_exists_but_not_found:
  "exists_item
     [([], \<lparr>c = 1, p = 1, f = 1, cal = 17, serving_amt = 100, serving_unit = ''g''\<rparr>)] []
   \<and> get [([], \<lparr>c = 1, p = 1, f = 1, cal = 17, serving_amt = 100, serving_unit = ''g''\<rparr>)] []
       = Inl (ValueError ''Item not found: '')"
  by code_simp

text \<open>What \<open>get\<close> does once the remainder has matched a record with a name that is
  not empty: the division error when the ratio divides by a serving amount of zero, the
  scaled record otherwise.\<close>

lemma get_of_match:
  assumes "parse_quantity menu_text = (qty, unit, item_text)"
    and "match items item_text = Some name"
    and "name \<noteq> []"
    and "map_of items name = Some item"
  shows "get items menu_text =
     (if divides_by_serving unit item \<and> serving_amt item = 0 then Inl ZeroDivisionError
      else Inr \<lparr>c = c item * (if divides_by_serving unit item then qty / serving_amt item else qty),
                p = p item * (if divides_by_serving unit item then qty / serving_amt item else qty),
                f = f item * (if divides_by_serving unit item then qty / serving_amt item else qty),
                cal = cal item * (if divides_by_serving unit item then qty / serving_amt item else qty)\<rparr>)"
  using assms
  by (auto simp add: get_def divides_by_serving_def bindE_def py_div_def)

text \<open>
  Claim C1, as amended. When the remainder of the menu text matches a record of the
  table whose name is not empty, \<open>get\<close> does one of two things. If the ratio divides by
  the serving amount (both units are grams, or the requested unit is the unit of the
  record, or no unit was requested) and the serving amount is zero, \<open>get\<close> fails with
  the division error. In every other case \<open>get\<close> returns the four fields of the record,
  each multiplied by one ratio: the requested amount divided by the serving amount in the
  three cases just named, the requested amount itself otherwise. A record with serving
  100 g and 20 g of carbs, requested as 50 g, gives 10 g of carbs.
\<close>

theorem get_scales_by_one_ratio:
  assumes "parse_quantity menu_text = (qty, unit, item_text)"
    and "match items item_text = Some name"
    and "name \<noteq> []"
    and "map_of items name = Some item"
  shows "get items menu_text =
     (if divides_by_serving unit item \<and> serving_amt item = 0 then Inl ZeroDivisionError
      else Inr \<lparr>c = c item * (if divides_by_serving unit item then qty / serving_amt item else qty),
                p = p item * (if divides_by_serving unit item then qty / serving_amt item else qty),
                f = f item * (if divides_by_serving unit item then qty / serving_amt item else qty),
                cal = cal item * (if divides_by_serving unit item then qty / serving_amt item else qty)\<rparr>)"
  using assms by (rule get_of_match)

theorem get_scales_by_one_ratio_witness:
  "get rice_table ''50g brown rice'' = Inr \<lparr>c = 10, p = 3 / 2, f = 1 / 2, cal = 55\<rparr>
   \<and> get zero_serving_table ''brown rice'' = Inl ZeroDivisionError"
proof -
  have pq: "parse_quantity ''50g brown rice'' = (50, Some ''g'', ''brown rice'')"
    by code_simp
  have m: "match rice_table ''brown rice'' = Some ''brown rice''"
    by code_simp
  have ne: "''brown rice'' \<noteq> []"
    by simp
  have it: "map_of rice_table ''brown rice''
      = Some \<lparr>c = 20, p = 3, f = 1, cal = 110, serving_amt = 100, serving_unit = ''g''\<rparr>"
    by (simp add: rice_table_def)
  have pq0: "parse_quantity ''brown rice'' = (1, None, ''brown rice'')"
    by code_simp
  have m0: "match zero_serving_table ''brown rice'' = Some ''brown rice''"
    by code_simp
  have it0: "map_of zero_serving_table ''brown rice''
      = Some \<lparr>c = 20, p = 3, f = 1, cal = 110, serving_amt = 0, serving_unit = ''g''\<rparr>"
    by (simp add: zero_serving_table_def)
  show ?thesis
    using get_scales_by_one_ratio [OF pq m ne it] get_scales_by_one_ratio [OF pq0 m0 ne it0]
    by (simp add: divides_by_serving_def)
qed

text \<open>The claim as it is written fails for a record whose serving amount is zero: the
  remainder matches the record, and \<open>get\<close> raises the division error.\<close>

theorem get_zero_serving_counterexample:
  "parse_quantity ''50g brown rice'' = (50, Some ''g'', ''brown rice'')
   \<and> match zero_serving_table ''brown rice'' = Some ''brown rice''
   \<and> get zero_serving_table ''50g brown rice'' = Inl ZeroDivisionError"
  by code_simp

text \<open>
  Claim C6, as amended. For every menu text whose remainder has a score above one half
  against a name of the table, \<open>exists\<close> is true and the remainder matches a record of
  the table. \<open>get\<close> returns a value exactly when its ratio does not divide by a serving
  amount of zero of that record, and raises the division error exactly when it does; it
  never raises the item-not-found error. So whenever the serving amount of the matched
  record is not zero, \<open>exists\<close> is true if and only if \<open>get\<close> does not raise.
\<close>

theorem get_after_exists:
  assumes "matches_with_score items menu_text"
  shows "exists_item items menu_text
     \<and> (\<exists>name item.
          match items (snd (snd (parse_quantity menu_text))) = Some name
          \<and> map_of items name = Some item
          \<and> ((\<exists>v. get items menu_text = Inr v) \<longleftrightarrow>
                \<not> (divides_by_serving (fst (snd (parse_quantity menu_text))) item
                     \<and> serving_amt item = 0))
          \<and> (get items menu_text = Inl ZeroDivisionError \<longleftrightarrow>
                divides_by_serving (fst (snd (parse_quantity menu_text))) item
                \<and> serving_amt item = 0)
          \<and> (serving_amt item \<noteq> 0 \<longrightarrow>
                (exists_item items menu_text \<longleftrightarrow> (\<exists>v. get items menu_text = Inr v))))
     \<and> (\<forall>m. get items menu_text \<noteq> Inl (ValueError m))"
proof -
  obtain qty unit item_text where pq: "parse_quantity menu_text = (qty, unit, item_text)"
    by (cases "parse_quantity menu_text")
  with assms
  have "list_ex (\<lambda>name. score (set (split (strip (lower item_text)))) name > 1 / 2) (map fst items)"
    by (simp add: matches_with_score_def)
  from match_above_half [OF this]
  obtain name where m: "match items item_text = Some name" "name \<noteq> []"
    by blast
  from match_in_table [OF m(1)] obtain item where it: "map_of items name = Some item"
    by blast
  have ex: "exists_item items menu_text"
    using pq m by (simp add: exists_item_def)
  note g = get_of_match [OF pq m it]
  have g1: "(\<exists>v. get items menu_text = Inr v) \<longleftrightarrow>
      \<not> (divides_by_serving unit item \<and> serving_amt item = 0)"
    by (simp add: g)
  have g2: "get items menu_text = Inl ZeroDivisionError \<longleftrightarrow>
      divides_by_serving unit item \<and> serving_amt item = 0"
    by (simp add: g)
  have g3: "\<forall>m. get items menu_text \<noteq> Inl (ValueError m)"
    by (simp add: g)
  have g4: "serving_amt item \<noteq> 0 \<longrightarrow>
      (exists_item items menu_text \<longleftrightarrow> (\<exists>v. get items menu_text = Inr v))"
    using ex g1 by simp
  have "match items (snd (snd (parse_quantity menu_text))) = Some name
      \<and> map_of items name = Some item
      \<and> ((\<exists>v. get items menu_text = Inr v) \<longleftrightarrow>
            \<not> (divides_by_serving (fst (snd (parse_quantity menu_text))) item
                 \<and> serving_amt item = 0))
      \<and> (get items menu_text = Inl ZeroDivisionError \<longleftrightarrow>
            divides_by_serving (fst (snd (parse_quantity menu_text))) item
            \<and> serving_amt item = 0)
      \<and> (serving_amt item \<noteq> 0 \<longrightarrow>
            (exists_item items menu_text \<longleftrightarrow> (\<exists>v. get items menu_text = Inr v)))"
    using m(1) it g1 g2 g4 by (simp add: pq)
  then have "\<exists>name item.
      match items (snd (snd (parse_quantity menu_text))) = Some name
      \<and> map_of items name = Some item
      \<and> ((\<exists>v. get items menu_text = Inr v) \<longleftrightarrow>
            \<not> (divides_by_serving (fst (snd (parse_quantity menu_text))) item
                 \<and> serving_amt item = 0))
      \<and> (get items menu_text = Inl ZeroDivisionError \<longleftrightarrow>
            divides_by_serving (fst (snd (parse_quantity menu_text))) item
            \<and> serving_amt item = 0)
      \<and> (serving_amt item \<noteq> 0 \<longrightarrow>
            (exists_item items menu_text \<longleftrightarrow> (\<exists>v. get items menu_text = Inr v)))"
    by blast
  with ex g3 show ?thesis
    by blast
qed

theorem get_after_exists_witness:
  "matches_with_score rice_table ''2 cups brown rice''
   \<and> exists_item rice_table ''2 cups brown rice''
   \<and> get rice_table ''2 cups brown rice'' = Inr \<lparr>c = 40, p = 6, f = 2, cal = 220\<rparr>"
proof -
  have h: "matches_with_score rice_table ''2 cups brown rice''"
    by code_simp
  have v: "get rice_table ''2 cups brown rice'' = Inr \<lparr>c = 40, p = 6, f = 2, cal = 220\<rparr>"
    by code_simp
  from get_after_exists [OF h] have "exists_item rice_table ''2 cups brown rice''"
    by blast
  with h v show ?thesis
    by simp
qed

text \<open>The claim as it is written fails for a record whose serving amount is zero:
  \<open>exists\<close> is true and \<open>get\<close> raises.\<close>

theorem exists_but_get_raises_counterexample:
  "matches_with_score zero_serving_table ''brown rice''
   \<and> exists_item zero_serving_table ''brown rice''
   \<and> get zero_serving_table ''brown rice'' = Inl ZeroDivisionError"
  by code_simp

section \<open>The quantity parser: trimming and lower case\<close>

lemma of_char_lower_char:
  "is_upper ch \<Longrightarrow> (of_char (lower_char ch) :: nat) = of_char ch + 32"
  by (auto simp add: lower_char_def is_upper_def Let_def)

lemma is_space_lower_char: "is_space (lower_char ch) = is_space ch"
proof (cases "is_upper ch")
  case True
  then show ?thesis
    using of_char_lower_char [OF True]
    by (auto simp add: is_space_def is_upper_def Let_def)
next
  case False
  then show ?thesis by (simp add: lower_char_def)
qed

lemma not_upper_lower_char: "\<not> is_upper (lower_char ch)"
proof (cases "is_upper ch")
  case True
  then show ?thesis
    using of_char_lower_char [OF True]
    by (auto simp add: is_upper_def Let_def)
next
  case False
  then show ?thesis by (simp add: lower_char_def)
qed

lemma lower_char_idem: "lower_char (lower_char ch) = lower_char ch"
  using not_upper_lower_char [of ch] by (simp add: lower_char_def [of "lower_char ch"])

lemma lower_idem: "lower (lower s) = lower s"
  by (simp add: lower_def lower_char_idem)

lemma dropWhile_space_lower:
  "dropWhile is_space (lower s) = lower (dropWhile is_space s)"
  by (simp add: lower_def dropWhile_map comp_def is_space_lower_char)

lemma strip_lower: "strip (lower s) = lower (strip s)"
proof -
  have "rev (lower s) = lower (rev s)" for s
    by (simp add: lower_def rev_map)
  then show ?thesis
    by (simp add: strip_def dropWhile_space_lower)
qed

lemma dropWhile_snoc_keeps_last:
  "\<not> P y \<Longrightarrow> \<exists>zs. dropWhile P (xs @ [y]) = zs @ [y]"
  by (induction xs) auto

lemma dropWhile_rev_dropWhile:
  "dropWhile P (rev (dropWhile P (rev (dropWhile P xs)))) = rev (dropWhile P (rev (dropWhile P xs)))"
proof (cases "dropWhile P xs")
  case Nil
  then show ?thesis by (simp only: rev.simps dropWhile.simps)
next
  case (Cons y ys)
  then have ny: "\<not> P y"
    by (metis hd_dropWhile list.sel(1) list.distinct(1))
  from dropWhile_snoc_keeps_last [of P y "rev ys"] ny
  obtain zs where zs: "dropWhile P (rev ys @ [y]) = zs @ [y]"
    by blast
  show ?thesis
    using ny by (simp add: Cons zs)
qed

lemma strip_idem: "strip (strip s) = strip s"
  by (simp add: strip_def dropWhile_rev_dropWhile)

lemma normal_idem: "lower (strip (lower (strip s))) = lower (strip s)"
  by (simp add: strip_lower strip_idem lower_idem)

lemma re_rest_sound: "re_rest s = Some r \<Longrightarrow> r \<noteq> [] \<and> set r \<subseteq> set s"
  by (auto simp add: re_rest_def Let_def split: if_splits dest: set_takeWhileD)

lemma re_ws_sound: "re_ws k s = Some x \<Longrightarrow> \<exists>s'. suffix s' s \<and> k s' = Some x"
proof (induction s)
  case Nil
  then show ?case by auto
next
  case (Cons ch s)
  show ?case
  proof (cases "is_space ch \<and> re_ws k s \<noteq> None")
    case True
    with Cons.prems have "re_ws k s = Some x" by auto
    from Cons.IH [OF this] show ?thesis
      by (auto intro: suffix_ConsI)
  next
    case False
    with Cons.prems have "k (ch # s) = Some x"
      by (auto split: if_splits option.splits)
    then show ?thesis by auto
  qed
qed

lemma re_unit_sound:
  "re_unit k s = Some x \<Longrightarrow>
     \<exists>u s'. suffix s' s \<and> k u s' = Some x \<and> (u = None \<or> u = Some ''g'' \<or> u = Some ''cup'')"
  unfolding re_unit_def
  by (auto split: option.splits if_splits intro: suffix_drop)

lemma re_digits_sound:
  "re_digits k ds s = Some x \<Longrightarrow> \<exists>ds' s'. suffix s' s \<and> k ds' s' = Some x"
proof (induction s arbitrary: ds)
  case Nil
  then show ?case by (auto split: if_splits)
next
  case (Cons ch s)
  show ?case
  proof (cases "is_digit ch \<and> re_digits k (ds @ [ch]) s \<noteq> None")
    case True
    with Cons.prems have "re_digits k (ds @ [ch]) s = Some x" by auto
    from Cons.IH [OF this] show ?thesis
      by (auto intro: suffix_ConsI)
  next
    case False
    with Cons.prems have "k ds (ch # s) = Some x"
      by (auto split: if_splits option.splits)
    then show ?thesis by auto
  qed
qed

lemma re_frac_sound:
  "re_frac k s = Some x \<Longrightarrow> \<exists>fs s'. suffix s' s \<and> k fs s' = Some x"
proof (cases "\<exists>s'. s = CHR ''.'' # s' \<and> re_digits k [] s' \<noteq> None")
  case True
  then obtain s' where s': "s = CHR ''.'' # s'" "re_digits k [] s' \<noteq> None" by blast
  moreover assume "re_frac k s = Some x"
  ultimately have "re_digits k [] s' = Some x"
    by (auto simp add: re_frac_def)
  from re_digits_sound [OF this] s'(1) show ?thesis
    by (auto intro: suffix_ConsI)
next
  case False
  moreover assume "re_frac k s = Some x"
  ultimately have "k [] s = Some x"
    by (auto simp add: re_frac_def split: list.splits if_splits option.splits)
  then show ?thesis by auto
qed

lemma re_quantity_sound:
  assumes "re_quantity text = Some (ds, fs, u, r)"
  shows "r \<noteq> [] \<and> set r \<subseteq> set text \<and> (u = None \<or> u = Some ''g'' \<or> u = Some ''cup'')"
proof -
  from re_digits_sound [OF assms [unfolded re_quantity_def]]
  obtain ds1 s1 where a1: "suffix s1 text"
    "re_frac (\<lambda>fs s2. re_ws (re_unit (\<lambda>u s3.
        re_ws (\<lambda>s4. map_option (\<lambda>r. (ds1, fs, u, r)) (re_rest s4)) s3)) s2) s1 = Some (ds, fs, u, r)"
    by (elim exE conjE) (rule that)
  from re_frac_sound [OF a1(2)]
  obtain fs2 s2 where a2: "suffix s2 s1"
    "re_ws (re_unit (\<lambda>u s3.
        re_ws (\<lambda>s4. map_option (\<lambda>r. (ds1, fs2, u, r)) (re_rest s4)) s3)) s2 = Some (ds, fs, u, r)"
    by (elim exE conjE) (rule that)
  from re_ws_sound [OF a2(2)]
  obtain s3 where a3: "suffix s3 s2"
    "re_unit (\<lambda>u s3.
        re_ws (\<lambda>s4. map_option (\<lambda>r. (ds1, fs2, u, r)) (re_rest s4)) s3) s3 = Some (ds, fs, u, r)"
    by (elim exE conjE) (rule that)
  from re_unit_sound [OF a3(2)]
  obtain u4 s4 where a4: "suffix s4 s3"
    "re_ws (\<lambda>s4. map_option (\<lambda>r. (ds1, fs2, u4, r)) (re_rest s4)) s4 = Some (ds, fs, u, r)"
    "u4 = None \<or> u4 = Some ''g'' \<or> u4 = Some ''cup''"
    by (elim exE conjE) (rule that)
  from re_ws_sound [OF a4(2)]
  obtain s5 where a5: "suffix s5 s4"
    "map_option (\<lambda>r. (ds1, fs2, u4, r)) (re_rest s5) = Some (ds, fs, u, r)"
    by (elim exE conjE) (rule that)
  from a5(2) have r: "re_rest s5 = Some r" "u4 = u"
    by auto
  have "suffix s5 text"
    using a1(1) a2(1) a3(1) a4(1) a5(1) suffix_order.trans by blast
  then have "set s5 \<subseteq> set text"
    by (rule set_mono_suffix)
  with re_rest_sound [OF r(1)] a4(3) r(2) show ?thesis
    by auto
qed

lemma lower_fixed: "(\<forall>ch\<in>set r. lower_char ch = ch) \<Longrightarrow> lower r = r"
  by (simp add: lower_def map_idI)

lemma parse_quantity_remainder_in_text:
  assumes "parse_quantity s = (qty, unit, r)"
  shows "set r \<subseteq> set (lower (strip s))"
proof (cases "take 5 (lower (strip s)) = ''half ''")
  case True
  with assms have "r = drop 5 (lower (strip s))"
    by (simp add: parse_quantity_def Let_def)
  then show ?thesis
    by (auto dest: in_set_dropD)
next
  case False
  show ?thesis
  proof (cases "re_quantity (lower (strip s))")
    case None
    with assms False show ?thesis
      by (simp add: parse_quantity_def Let_def)
  next
    case (Some a)
    obtain ds fs u r' where a: "a = (ds, fs, u, r')"
      by (cases a) auto
    with assms False Some have "r = r'"
      by (simp add: parse_quantity_def Let_def)
    with re_quantity_sound [of "lower (strip s)" ds fs u r'] Some a show ?thesis
      by simp
  qed
qed

text \<open>
  Claim C9. For every text, \<open>parse_quantity\<close> gives the same result on the text and on
  the text trimmed and put in lower case, and the remainder it returns is in lower case.
  So \<open>exists\<close> gives the same answer on both, and \<open>get\<close> the same value or the same
  failure; only the message of the item-not-found error differs, since it quotes the
  text as it was given.
\<close>

theorem parse_quantity_normalises:
  "parse_quantity s = parse_quantity (lower (strip s))
   \<and> lower (snd (snd (parse_quantity s))) = snd (snd (parse_quantity s))
   \<and> exists_item items s = exists_item items (lower (strip s))
   \<and> get items s =
       (case get items (lower (strip s)) of
          Inl (ValueError m) \<Rightarrow> Inl (ValueError (''Item not found: '' @ s))
        | Inl e \<Rightarrow> Inl e
        | Inr v \<Rightarrow> Inr v)"
proof (intro conjI)
  show pq: "parse_quantity s = parse_quantity (lower (strip s))"
    by (simp add: parse_quantity_def normal_idem)
  obtain qty unit r where r: "parse_quantity s = (qty, unit, r)"
    by (cases "parse_quantity s")
  have "\<forall>ch\<in>set (lower (strip s)). lower_char ch = ch"
    by (auto simp add: lower_def lower_char_idem)
  with parse_quantity_remainder_in_text [OF r] have "\<forall>ch\<in>set r. lower_char ch = ch"
    by blast
  then show "lower (snd (snd (parse_quantity s))) = snd (snd (parse_quantity s))"
    by (simp add: r lower_fixed)
  show "exists_item items s = exists_item items (lower (strip s))"
    by (simp add: exists_item_def pq [symmetric])
  show "get items s =
       (case get items (lower (strip s)) of
          Inl (ValueError m) \<Rightarrow> Inl (ValueError (''Item not found: '' @ s))
        | Inl e \<Rightarrow> Inl e
        | Inr v \<Rightarrow> Inr v)"
    by (simp add: get_def pq [symmetric] r bindE_def py_div_def
        split: option.splits sum.splits error.splits)
qed

theorem parse_quantity_normalises_witness:
  "parse_quantity ''  50G Brown RICE '' = (50, Some ''g'', ''brown rice'')
   \<and> exists_item rice_table ''  50G Brown RICE ''
   \<and> get rice_table ''  50G Brown RICE '' = Inr \<lparr>c = 10, p = 3 / 2, f = 1 / 2, cal = 55\<rparr>"
proof -
  have n: "lower (strip ''  50G Brown RICE '') = ''50g brown rice''"
    by code_simp
  have pq: "parse_quantity ''50g brown rice'' = (50, Some ''g'', ''brown rice'')"
    by code_simp
  have ex: "exists_item rice_table ''50g brown rice''"
    by code_simp
  have g: "get rice_table ''50g brown rice'' = Inr \<lparr>c = 10, p = 3 / 2, f = 1 / 2, cal = 55\<rparr>"
    by code_simp
  show ?thesis
    using parse_quantity_normalises [of "''  50G Brown RICE ''" rice_table]
    by (simp only: n pq ex g sum.case simp_thms)
qed

section \<open>The quantity parser: the unit and the remainder\<close>

lemma space_not_digit: "is_space ch \<Longrightarrow> \<not> is_digit ch"
  by (auto simp add: is_space_def is_digit_def)

lemma space_not_dot: "is_space ch \<Longrightarrow> ch \<noteq> CHR ''.''"
  by (auto simp add: is_space_def)

lemma dot_not_digit: "\<not> is_digit CHR ''.''"
  by (simp add: is_digit_def)

lemma re_ws_first:
  "\<forall>ch\<in>set ws. is_space ch \<Longrightarrow> s = [] \<or> \<not> is_space (hd s) \<Longrightarrow> k s = Some x
     \<Longrightarrow> re_ws k (ws @ s) = Some x"
proof (induction ws)
  case Nil
  then show ?case by (cases s) auto
next
  case (Cons a ws)
  then show ?case by simp
qed

lemma re_digits_first:
  "\<forall>ch\<in>set ds. is_digit ch \<Longrightarrow> acc @ ds \<noteq> [] \<Longrightarrow> s = [] \<or> \<not> is_digit (hd s)
     \<Longrightarrow> k (acc @ ds) s = Some x \<Longrightarrow> re_digits k acc (ds @ s) = Some x"
proof (induction ds arbitrary: acc)
  case Nil
  then show ?case by (cases s) auto
next
  case (Cons d ds)
  from Cons.prems have "re_digits k (acc @ [d]) (ds @ s) = Some x"
    by (intro Cons.IH) auto
  with Cons.prems show ?case by simp
qed

lemma re_frac_none: "s = [] \<or> hd s \<noteq> CHR ''.'' \<Longrightarrow> re_frac k s = k [] s"
  by (cases s) (auto simp add: re_frac_def)

lemma re_frac_first:
  assumes "fs \<noteq> []" and "\<forall>ch\<in>set fs. is_digit ch" and "s = [] \<or> \<not> is_digit (hd s)"
    and "k fs s = Some x"
  shows "re_frac k (CHR ''.'' # fs @ s) = Some x"
proof -
  have "re_digits k [] (fs @ s) = Some x"
    using assms by (intro re_digits_first) auto
  then show ?thesis
    by (simp add: re_frac_def)
qed

lemma re_unit_none: "take 1 s \<noteq> ''g'' \<Longrightarrow> take 3 s \<noteq> ''cup'' \<Longrightarrow> re_unit k s = k None s"
  by (simp add: re_unit_def)

lemma re_rest_whole: "w \<noteq> [] \<Longrightarrow> CHR 0x0A \<notin> set w \<Longrightarrow> re_rest w = Some w"
proof -
  assume w: "w \<noteq> []" "CHR 0x0A \<notin> set w"
  then have t: "takeWhile (\<lambda>ch. ch \<noteq> CHR 0x0A) w = w"
    by (intro takeWhile_eq_all_conv [THEN iffD2]) auto
  have d: "dropWhile (\<lambda>ch. ch \<noteq> CHR 0x0A) w = []"
    using w by (intro dropWhile_eq_Nil_conv [THEN iffD2]) auto
  show ?thesis
    using w by (simp add: re_rest_def t d)
qed

lemma re_quantity_first:
  assumes ds: "ds \<noteq> []" "\<forall>ch\<in>set ds. is_digit ch"
    and fr: "fr = [] \<or> (\<exists>fs. fr = CHR ''.'' # fs \<and> fs \<noteq> [] \<and> (\<forall>ch\<in>set fs. is_digit ch))"
    and ws: "\<forall>ch\<in>set ws. is_space ch"
    and w: "w \<noteq> []" "\<not> is_space (hd w)" "\<not> is_digit (hd w)" "hd w \<noteq> CHR ''.''"
      "CHR 0x0A \<notin> set w"
    and nu: "take 1 w \<noteq> ''g''" "take 3 w \<noteq> ''cup''"
  shows "re_quantity (ds @ fr @ ws @ w) = Some (ds, drop 1 fr, None, w)"
proof -
  let ?k5 = "\<lambda>fs u s4. map_option (\<lambda>r. (ds, fs, u, r)) (re_rest s4)"
  let ?k4 = "\<lambda>fs u s3. re_ws (?k5 fs u) s3"
  let ?k2 = "\<lambda>fs s2. re_ws (re_unit (?k4 fs)) s2"
  let ?x = "(ds, drop 1 fr, None :: string option, w)"
  have hd_ww: "\<not> is_digit (hd (ws @ w)) \<and> hd (ws @ w) \<noteq> CHR ''.''"
    using ws w space_not_digit space_not_dot by (cases ws) auto
  have k5: "?k5 fs None w = Some (ds, fs, None, w)" for fs
    using w by (simp add: re_rest_whole)
  have k4: "?k4 fs None w = Some (ds, fs, None, w)" for fs
    using re_ws_first [of "[]" w "?k5 fs None"] w k5 by simp
  have k3: "re_unit (?k4 fs) w = Some (ds, fs, None, w)" for fs
    using nu k4 by (simp add: re_unit_none)
  have k2: "?k2 fs (ws @ w) = Some (ds, fs, None, w)" for fs
    using ws w k3 by (intro re_ws_first) auto
  have k1: "re_frac ?k2 (fr @ ws @ w) = Some ?x"
  proof (cases "fr = []")
    case True
    then show ?thesis
      using hd_ww k2 by (simp add: re_frac_none)
  next
    case False
    with fr obtain fs where fs: "fr = CHR ''.'' # fs" "fs \<noteq> []" "\<forall>ch\<in>set fs. is_digit ch"
      by blast
    have "re_frac ?k2 (CHR ''.'' # fs @ (ws @ w)) = Some (ds, fs, None, w)"
      using fs hd_ww k2 by (intro re_frac_first) auto
    then show ?thesis
      by (simp add: fs)
  qed
  have nd: "fr @ ws @ w = [] \<or> \<not> is_digit (hd (fr @ ws @ w))"
    using fr hd_ww dot_not_digit by (cases "fr = []") auto
  have "re_digits (\<lambda>ds' s1. re_frac (\<lambda>fs s2. re_ws (re_unit (\<lambda>u s3.
           re_ws (\<lambda>s4. map_option (\<lambda>r. (ds', fs, u, r)) (re_rest s4)) s3)) s2) s1) []
          (ds @ (fr @ ws @ w)) = Some ?x"
    using ds nd k1 by (intro re_digits_first) auto
  then show ?thesis
    by (simp add: re_quantity_def)
qed

lemma parse_quantity_unit:
  "fst (snd (parse_quantity t)) = None \<or> fst (snd (parse_quantity t)) = Some ''g''
     \<or> fst (snd (parse_quantity t)) = Some ''cup''"
proof (cases "re_quantity (lower (strip t))")
  case None
  then show ?thesis
    by (simp add: parse_quantity_def Let_def)
next
  case (Some a)
  obtain ds fs u r where a: "a = (ds, fs, u, r)"
    by (cases a) auto
  from re_quantity_sound [of "lower (strip t)" ds fs u r] Some a
  have "u = None \<or> u = Some ''g'' \<or> u = Some ''cup''"
    by simp
  with Some a show ?thesis
    by (auto simp add: parse_quantity_def Let_def)
qed

lemma digit_first_not_half:
  assumes "ds \<noteq> []" and "\<forall>ch\<in>set ds. is_digit ch"
  shows "take 5 (ds @ s) \<noteq> ''half ''"
proof -
  obtain d ds' where d: "ds = d # ds'"
    using assms(1) by (cases ds) auto
  with assms(2) have "is_digit d" by simp
  then have "d \<noteq> CHR ''h''"
    by (auto simp add: is_digit_def)
  then show ?thesis
    by (simp add: d)
qed

text \<open>Where the remainder after the number begins with neither \<open>g\<close> nor \<open>cup\<close> (nor
  with a digit, a dot or whitespace) and is on one line, no unit is read and the
  remainder is kept whole.\<close>

lemma remainder_kept_without_unit_prefix:
  assumes "lower (strip s) = ds @ fr @ ws @ w"
    and "ds \<noteq> []" and "\<forall>ch\<in>set ds. is_digit ch"
    and "fr = [] \<or> (\<exists>fs. fr = CHR ''.'' # fs \<and> fs \<noteq> [] \<and> (\<forall>ch\<in>set fs. is_digit ch))"
    and "\<forall>ch\<in>set ws. is_space ch"
    and "w \<noteq> []" and "\<not> is_space (hd w)" and "\<not> is_digit (hd w)" and "hd w \<noteq> CHR ''.''"
    and "CHR 0x0A \<notin> set w"
    and "take 1 w \<noteq> ''g''" and "take 3 w \<noteq> ''cup''"
  shows "parse_quantity s = (decimal_val ds (drop 1 fr), None, w)"
proof -
  have nh: "take 5 (lower (strip s)) \<noteq> ''half ''"
    unfolding assms(1) by (rule digit_first_not_half [OF assms(2,3)])
  have "re_quantity (lower (strip s)) = Some (ds, drop 1 fr, None, w)"
    unfolding assms(1) by (rule re_quantity_first [OF assms(2-12)])
  with nh show ?thesis
    by (simp add: parse_quantity_def Let_def)
qed

text \<open>
  Claim C2. The claim is that the unit is exactly \<open>g\<close> or \<open>cup\<close> and that any other
  word after the number is kept whole in the remainder. The parser does return \<open>g\<close> for
  \<open>110g chicken\<close>, but its pattern has no word boundary after the unit: a word that only
  begins with \<open>g\<close> or \<open>cup\<close> is cut in two. \<open>5 grapes\<close> gives the unit \<open>g\<close> and the
  remainder \<open>rapes\<close>, \<open>2 cups rice\<close> gives the unit \<open>cup\<close> and the remainder
  \<open>s rice\<close>; and with \<open>grapes\<close> in the table, \<open>grapes\<close> is found while
  \<open>5 grapes\<close> is not.
\<close>

theorem unit_read_out_of_word:
  "parse_quantity ''110g chicken'' = (110, Some ''g'', ''chicken'')
   \<and> parse_quantity ''5 grapes'' = (5, Some ''g'', ''rapes'')
   \<and> parse_quantity ''2 cups rice'' = (2, Some ''cup'', ''s rice'')
   \<and> exists_item grapes_table ''grapes''
   \<and> \<not> exists_item grapes_table ''5 grapes''"
  by code_simp

section \<open>Loading the table: duplicate names\<close>

lemma row_item_name:
  "row_item to_float cols = Inr (k, v) \<Longrightarrow> k = lower (cols ! 1)"
  by (auto simp add: row_item_def bindE_def split: sum.splits)

lemma load_loop_append:
  "load_loop to_float (xs @ ys) acc = bindE (load_loop to_float xs acc) (load_loop to_float ys)"
proof (induction xs arbitrary: acc)
  case Nil
  then show ?case by (simp add: bindE_def)
next
  case (Cons x xs)
  then show ?case
    by (auto simp add: bindE_def split: sum.splits)
qed

lemma load_loop_data_row:
  assumes "data_row line" and "row_item to_float (row_cols line) = Inr (name, item)"
  shows "load_loop to_float (line # lines) acc
           = load_loop to_float lines (AList.update name item acc)"
  using assms by (simp add: data_row_def bindE_def)

lemma load_loop_other_row:
  assumes "\<not> data_row line"
  shows "load_loop to_float (line # lines) acc = load_loop to_float lines acc"
  using assms by (auto simp add: data_row_def)

lemma load_loop_total:
  "\<forall>l\<in>set ls. data_row l \<longrightarrow> (\<exists>kv. row_item to_float (row_cols l) = Inr kv)
     \<Longrightarrow> \<exists>items. load_loop to_float ls acc = Inr items"
proof (induction ls arbitrary: acc)
  case Nil
  then show ?case by simp
next
  case (Cons l ls)
  show ?case
  proof (cases "data_row l")
    case True
    with Cons.prems obtain k v where kv: "row_item to_float (row_cols l) = Inr (k, v)"
      by fastforce
    from Cons.prems have "\<exists>items. load_loop to_float ls (AList.update k v acc) = Inr items"
      by (intro Cons.IH) simp
    then show ?thesis
      by (simp only: load_loop_data_row [OF True kv])
  next
    case False
    from Cons.prems have "\<exists>items. load_loop to_float ls acc = Inr items"
      by (intro Cons.IH) simp
    then show ?thesis
      by (simp only: load_loop_other_row [OF False])
  qed
qed

lemma load_loop_keeps_other_names:
  "load_loop to_float ls acc = Inr items
     \<Longrightarrow> \<forall>l\<in>set ls. data_row l \<longrightarrow> lower (row_cols l ! 1) \<noteq> name
     \<Longrightarrow> map_of items name = map_of acc name"
proof (induction ls arbitrary: acc)
  case Nil
  then show ?case by simp
next
  case (Cons l ls)
  show ?case
  proof (cases "data_row l")
    case True
    with Cons.prems(1) obtain k v where kv: "row_item to_float (row_cols l) = Inr (k, v)"
      by (cases "row_item to_float (row_cols l)") (auto simp add: data_row_def bindE_def)
    from row_item_name [OF kv] Cons.prems(2) True have kn: "k \<noteq> name"
      by simp
    from Cons.prems(1) have "load_loop to_float ls (AList.update k v acc) = Inr items"
      by (simp only: load_loop_data_row [OF True kv])
    from Cons.IH [OF this] Cons.prems(2)
    have "map_of items name = map_of (AList.update k v acc) name"
      by simp
    with kn show ?thesis
      by (simp add: update_conv')
  next
    case False
    from Cons.prems(1) have "load_loop to_float ls acc = Inr items"
      by (simp only: load_loop_other_row [OF False])
    from Cons.IH [OF this] Cons.prems(2) show ?thesis
      by simp
  qed
qed

lemma load_loop_distinct:
  "load_loop to_float ls acc = Inr items \<Longrightarrow> distinct (map fst acc)
     \<Longrightarrow> distinct (map fst items)"
proof (induction ls arbitrary: acc)
  case Nil
  then show ?case by simp
next
  case (Cons l ls)
  show ?case
  proof (cases "data_row l")
    case True
    with Cons.prems(1) obtain k v where kv: "row_item to_float (row_cols l) = Inr (k, v)"
      by (cases "row_item to_float (row_cols l)") (auto simp add: data_row_def bindE_def)
    from Cons.prems(1) have "load_loop to_float ls (AList.update k v acc) = Inr items"
      by (simp only: load_loop_data_row [OF True kv])
    moreover have "distinct (map fst (AList.update k v acc))"
      using Cons.prems(2) by (rule distinct_update)
    ultimately show ?thesis
      by (rule Cons.IH)
  next
    case False
    from Cons.prems(1) have "load_loop to_float ls acc = Inr items"
      by (simp only: load_loop_other_row [OF False])
    then show ?thesis
      using Cons.prems(2) by (rule Cons.IH)
  qed
qed

text \<open>
  Claim C10. When the lines after the header and the separator contain two data rows
  (at least 8 columns) whose names are equal in lower case, the later of them being the
  last row of that name, and the numbers of every data row convert, then the table is
  loaded without an error, it maps the name to the record built from the later row, and
  it has one entry per name: the earlier row is overwritten.
\<close>

theorem later_duplicate_row_wins:
  assumes rows: "drop 2 lines = pre @ [line1] @ mid @ [line2] @ post"
    and conv: "\<forall>l\<in>set (drop 2 lines). data_row l \<longrightarrow> (\<exists>kv. row_item to_float (row_cols l) = Inr kv)"
    and r1: "data_row line1" "lower (row_cols line1 ! 1) = name"
    and r2: "data_row line2" "row_item to_float (row_cols line2) = Inr (name, item2)"
    and last: "\<forall>l\<in>set post. data_row l \<longrightarrow> lower (row_cols l ! 1) \<noteq> name"
  shows "\<exists>items. load to_float lines = Inr items \<and> map_of items name = Some item2
           \<and> distinct (map fst items)"
proof -
  have c1: "\<forall>l\<in>set (pre @ [line1] @ mid). data_row l \<longrightarrow> (\<exists>kv. row_item to_float (row_cols l) = Inr kv)"
    using conv rows by auto
  have c3: "\<forall>l\<in>set post. data_row l \<longrightarrow> (\<exists>kv. row_item to_float (row_cols l) = Inr kv)"
    using conv rows by auto
  from load_loop_total [OF c1] obtain a1 where a1: "load_loop to_float (pre @ [line1] @ mid) [] = Inr a1"
    by blast
  from load_loop_total [OF c3] obtain items
    where it: "load_loop to_float post (AList.update name item2 a1) = Inr items"
    by blast
  have "load to_float lines
      = load_loop to_float ((pre @ [line1] @ mid) @ (line2 # post)) []"
    by (simp add: load_def rows)
  also have "\<dots> = load_loop to_float (line2 # post) a1"
    by (subst load_loop_append) (simp only: a1 bindE_def sum.case)
  also have "\<dots> = Inr items"
    by (simp only: load_loop_data_row [OF r2] it)
  finally have ld: "load to_float lines = Inr items" .
  have "map_of items name = map_of (AList.update name item2 a1) name"
    using it last by (rule load_loop_keeps_other_names)
  then have m: "map_of items name = Some item2"
    by (simp add: update_conv')
  have "distinct (map fst a1)"
    using a1 by (rule load_loop_distinct) simp
  then have "distinct (map fst (AList.update name item2 a1))"
    by (rule distinct_update)
  with it have "distinct (map fst items)"
    by (rule load_loop_distinct)
  with ld m show ?thesis
    by blast
qed


theorem later_duplicate_row_wins_witness:
  "load float_ex oats_lines
     = Inr [(''oats'', \<lparr>c = 66, p = 17, f = 7, cal = 389, serving_amt = 40, serving_unit = ''g''\<rparr>)]"
proof -
  let ?l1 = "''|1|Oats|60|13|7|100|g|380|\<newline>''"
  let ?l2 = "''|2| OATS |66|17|7|40|G|389|\<newline>''"
  let ?item = "\<lparr>c = 66, p = 17, f = 7, cal = 389, serving_amt = 40, serving_unit = ''g''\<rparr>"
  have rows: "drop 2 oats_lines = [] @ [?l1] @ [] @ [?l2] @ []"
    by (simp add: oats_lines_def)
  have i1: "row_item float_ex (row_cols ?l1)
      = Inr (''oats'', \<lparr>c = 60, p = 13, f = 7, cal = 380, serving_amt = 100, serving_unit = ''g''\<rparr>)"
    by code_simp
  have i2: "row_item float_ex (row_cols ?l2) = Inr (''oats'', ?item)"
    by code_simp
  have d1: "data_row ?l1" and d2: "data_row ?l2"
    by code_simp+
  have n1: "lower (row_cols ?l1 ! 1) = ''oats''"
    by code_simp
  have conv: "\<forall>l\<in>set (drop 2 oats_lines). data_row l \<longrightarrow> (\<exists>kv. row_item float_ex (row_cols l) = Inr kv)"
    using i1 i2 by (simp add: oats_lines_def)
  have last: "\<forall>l\<in>set []. data_row l \<longrightarrow> lower (row_cols l ! 1) \<noteq> ''oats''"
    by simp
  from later_duplicate_row_wins [OF rows conv d1 n1 d2 i2 last]
  obtain items where it: "load float_ex oats_lines = Inr items" "map_of items ''oats'' = Some ?item"
    by blast
  have "load float_ex oats_lines = Inr [(''oats'', ?item)]"
    by code_simp
  with it show ?thesis
    by simp
qed

section \<open>The daily total: the choice groups\<close>

lemma avg_mean: "xs \<noteq> [] \<Longrightarrow> avg xs = Inr (mean xs)"
  by (simp add: avg_def truediv_def mean_def foldl_nadd_fields Nutrients0_def)

lemma bindE_Inr:
  "bindE m k = Inr y \<Longrightarrow> \<exists>v. m = Inr v \<and> k v = Inr y"
  by (cases m) (simp_all add: bindE_def)

lemma mapE_Cons_Inr:
  "mapE g (x # xs) = Inr ys \<Longrightarrow> \<exists>v vs. ys = v # vs \<and> g x = Inr v \<and> mapE g xs = Inr vs"
  by (auto simp add: bindE_def split: sum.splits)

lemma mapE_length: "mapE g xs = Inr ys \<Longrightarrow> length ys = length xs"
proof (induction xs arbitrary: ys)
  case Nil
  then show ?case by simp
next
  case (Cons x xs)
  from mapE_Cons_Inr [OF Cons.prems] Cons.IH show ?case
    by auto
qed

lemma group_options_fold:
  "mapE (\<lambda>opt. mapE (get items) (fst opt)) opts = Inr gss \<Longrightarrow> [] \<notin> set gss \<Longrightarrow>
     group_options items opts grouped =
       Inr (foldl (\<lambda>gr ov. add_choice (snd (snd (fst ov))) (fst (snd (fst ov))) (snd ov) gr)
              grouped (zip opts (map mean gss)))"
proof (induction opts arbitrary: gss grouped)
  case Nil
  then show ?case by simp
next
  case (Cons opt opts)
  obtain g n i where opt: "opt = (g, n, i)"
    by (cases opt) auto
  from mapE_Cons_Inr [OF Cons.prems(1)]
  obtain gs rest where r: "gss = gs # rest"
    "mapE (get items) (fst opt) = Inr gs"
    "mapE (\<lambda>opt. mapE (get items) (fst opt)) opts = Inr rest"
    by blast
  from r(1) Cons.prems(2) have ne: "gs \<noteq> []" "[] \<notin> set rest"
    by auto
  have gn: "get_nutrients items g = Inr (mean gs)"
    using r(2) by (simp add: get_nutrients_def opt bindE_def avg_mean [OF ne(1)])
  show ?case
    by (simp add: opt gn bindE_def r(1) Cons.IH [OF r(3) ne(2)])
qed

lemma set_group_ids: "set (group_ids os) = (\<lambda>opt. snd (snd opt)) ` set os"
  by (simp add: group_ids_def)

lemma distinct_group_ids: "distinct (group_ids os)"
  by (simp add: group_ids_def)

lemma group_ids_snoc:
  "group_ids (os @ [(g, n, i)]) =
     (if i \<in> set (group_ids os) then group_ids os else group_ids os @ [i])"
  by (auto simp add: group_ids_def)

lemma filter_id_empty:
  "(filter (\<lambda>opt. snd (snd opt) = j) os = []) = (j \<notin> set (group_ids os))"
  by (auto simp add: set_group_ids filter_empty_conv)

lemma required_count_snoc:
  "required_count (os @ [(g, n, i)]) j =
     (if j \<in> set (group_ids os) then required_count os j else if j = i then n else 0)"
proof (cases "j \<in> set (group_ids os)")
  case True
  then have "filter (\<lambda>opt. snd (snd opt) = j) os \<noteq> []"
    by (simp add: filter_id_empty)
  then obtain x xs where "filter (\<lambda>opt. snd (snd opt) = j) os = x # xs"
    by (cases "filter (\<lambda>opt. snd (snd opt) = j) os") auto
  with True show ?thesis
    by (simp add: required_count_def)
next
  case False
  then have "filter (\<lambda>opt. snd (snd opt) = j) os = []"
    by (simp add: filter_id_empty)
  with False show ?thesis
    by (simp add: required_count_def)
qed

lemma tagged_values_snoc:
  "length vs = length os \<Longrightarrow>
     tagged_values (os @ [(g, n, i)]) (vs @ [v]) j =
       tagged_values os vs j @ (if j = i then [v] else [])"
  by (simp add: tagged_values_def)

lemma tagged_values_none:
  "j \<notin> set (group_ids os) \<Longrightarrow> tagged_values os vs j = []"
  by (auto simp add: tagged_values_def filter_empty_conv set_group_ids dest!: set_zip_leftD)

lemma tagged_values_some:
  assumes "length vs = length os" and "j \<in> set (group_ids os)"
  shows "tagged_values os vs j \<noteq> []"
proof -
  from assms(2) obtain opt where "opt \<in> set os" "snd (snd opt) = j"
    by (auto simp add: set_group_ids)
  then obtain k where k: "k < length os" "os ! k = opt" "snd (snd opt) = j"
    by (auto simp add: in_set_conv_nth)
  with assms(1) have "(os ! k, vs ! k) \<in> set (zip os vs)"
    by (simp add: set_zip) blast
  with k have "\<exists>ov\<in>set (zip os vs). snd (snd (fst ov)) = j"
    by force
  then show ?thesis
    by (simp add: tagged_values_def filter_empty_conv)
qed

lemma map_of_keys:
  "map_of (map (\<lambda>j. (j, h j)) ks) i = (if i \<in> set ks then Some (h i) else None)"
  by (induction ks) auto

lemma update_keys:
  "distinct ks \<Longrightarrow> i \<in> set ks \<Longrightarrow>
     AList.update i x (map (\<lambda>j. (j, h j)) ks) = map (\<lambda>j. (j, if j = i then x else h j)) ks"
proof (induction ks)
  case Nil
  then show ?case by simp
next
  case (Cons k ks)
  show ?case
  proof (cases "k = i")
    case True
    with Cons.prems have "i \<notin> set ks" by simp
    then have "map (\<lambda>j. (j, if j = i then x else h j)) ks = map (\<lambda>j. (j, h j)) ks"
      by (intro map_cong) auto
    with True show ?thesis by simp
  next
    case False
    with Cons show ?thesis by simp
  qed
qed

lemma grouped_shape:
  "length vals = length opts \<Longrightarrow>
     foldl (\<lambda>gr ov. add_choice (snd (snd (fst ov))) (fst (snd (fst ov))) (snd ov) gr) [] (zip opts vals) =
       map (\<lambda>j. (j, (required_count opts j, tagged_values opts vals j))) (group_ids opts)"
proof (induction opts arbitrary: vals rule: rev_induct)
  case Nil
  then show ?case by (simp add: group_ids_def)
next
  case (snoc opt os)
  obtain g n i where opt: "opt = (g, n, i)"
    by (cases opt) auto
  from snoc.prems obtain vs v where vals: "vals = vs @ [v]" and len: "length vs = length os"
    by (cases vals rule: rev_cases) auto
  let ?h = "\<lambda>j. (required_count os j, tagged_values os vs j)"
  let ?G = "map (\<lambda>j. (j, ?h j)) (group_ids os)"
  have fold: "foldl (\<lambda>gr ov. add_choice (snd (snd (fst ov))) (fst (snd (fst ov))) (snd ov) gr) [] (zip (os @ [opt]) vals)
      = add_choice i n v ?G"
    using len by (simp add: vals opt snoc.IH [OF len])
  let ?h' = "\<lambda>j. (required_count (os @ [opt]) j, tagged_values (os @ [opt]) vals j)"
  show ?case
  proof (cases "i \<in> set (group_ids os)")
    case True
    note fold
    also have "add_choice i n v ?G
        = AList.update i (required_count os i, tagged_values os vs i @ [v]) ?G"
      using True by (simp add: add_choice_def map_of_keys)
    also have "\<dots> = map (\<lambda>j. (j, if j = i then (required_count os i, tagged_values os vs i @ [v])
                                  else ?h j)) (group_ids os)"
      using True by (intro update_keys distinct_group_ids)
    also have "\<dots> = map (\<lambda>j. (j, ?h' j)) (group_ids os)"
      by (intro map_cong) (auto simp add: opt vals required_count_snoc tagged_values_snoc [OF len])
    also have "\<dots> = map (\<lambda>j. (j, ?h' j)) (group_ids (os @ [opt]))"
      using True by (simp add: opt group_ids_snoc)
    finally show ?thesis .
  next
    case False
    have hi: "?h' i = (n, [v])"
      using False
      by (simp add: opt vals required_count_snoc tagged_values_snoc [OF len] tagged_values_none)
    note fold
    also have "add_choice i n v ?G = ?G @ [(i, (n, [v]))]"
      using False by (simp add: add_choice_def map_of_keys)
    also have "?G = map (\<lambda>j. (j, ?h' j)) (group_ids os)"
      using False
      by (intro map_cong) (auto simp add: opt vals required_count_snoc tagged_values_snoc [OF len])
    also have "map (\<lambda>j. (j, ?h' j)) (group_ids os) @ [(i, (n, [v]))]
        = map (\<lambda>j. (j, ?h' j)) (group_ids os @ [i])"
      by (simp add: hi)
    also have "\<dots> = map (\<lambda>j. (j, ?h' j)) (group_ids (os @ [opt]))"
      using False by (simp add: opt group_ids_snoc)
    finally show ?thesis .
  qed
qed

lemma add_grouped_sum:
  "\<forall>x\<in>set G. snd (snd x) \<noteq> [] \<Longrightarrow>
     add_grouped G t =
       Inr (foldl nadd t (map (\<lambda>x. nmul (mean (snd (snd x))) (of_nat (fst (snd x)))) G))"
proof (induction G arbitrary: t)
  case Nil
  then show ?case by simp
next
  case (Cons x G)
  obtain gid n choices where x: "x = (gid, (n, choices))"
    by (cases x) auto
  with Cons.prems have ne: "choices \<noteq> []" and rest: "\<forall>x\<in>set G. snd (snd x) \<noteq> []"
    by auto
  show ?case
    by (simp add: x avg_mean [OF ne] bindE_def Cons.IH [OF rest])
qed

lemma foldl_nadd_from_zero: "foldl nadd t xs = nadd t (foldl nadd Nutrients0 xs)"
proof -
  have a: "foldl nadd t xs =
     \<lparr>c = c t + sum_list (map c xs), p = p t + sum_list (map p xs),
      f = f t + sum_list (map f xs), cal = cal t + sum_list (map cal xs)\<rparr>"
    by (rule foldl_nadd_fields)
  have b: "foldl nadd Nutrients0 xs =
     \<lparr>c = sum_list (map c xs), p = sum_list (map p xs),
      f = sum_list (map f xs), cal = sum_list (map cal xs)\<rparr>"
    by (simp add: Nutrients0_def foldl_nadd_fields)
  show ?thesis
    by (simp add: a b nadd_def)
qed

lemma options_stage:
  assumes "mapE (\<lambda>opt. mapE (get items) (fst opt)) opts = Inr gss" and "[] \<notin> set gss"
  shows "bindE (group_options items opts []) (\<lambda>grouped. add_grouped grouped t)
           = Inr (nadd t (options_total opts (map mean gss)))"
proof -
  let ?vals = "map mean gss"
  let ?G = "map (\<lambda>j. (j, (required_count opts j, tagged_values opts ?vals j))) (group_ids opts)"
  have len: "length ?vals = length opts"
    using mapE_length [OF assms(1)] by simp
  have g: "group_options items opts [] = Inr ?G"
    by (simp only: group_options_fold [OF assms] grouped_shape [OF len])
  have ne: "\<forall>x\<in>set ?G. snd (snd x) \<noteq> []"
    using tagged_values_some [OF len] by auto
  have "add_grouped ?G t
      = Inr (foldl nadd t (map (\<lambda>x. nmul (mean (snd (snd x))) (of_nat (fst (snd x)))) ?G))"
    using ne by (rule add_grouped_sum)
  also have "map (\<lambda>x. nmul (mean (snd (snd x))) (of_nat (fst (snd x)))) ?G
      = map (\<lambda>gid. nmul (mean (tagged_values opts ?vals gid)) (of_nat (required_count opts gid)))
          (group_ids opts)"
    by (simp add: comp_def)
  finally have "add_grouped ?G t = Inr (nadd t (options_total opts ?vals))"
    by (simp only: options_total_def foldl_nadd_from_zero [of t])
  then show ?thesis
    by (simp add: g bindE_def)
qed

lemma add_carbs_shift:
  "add_carbs sa items menu day (nadd t a)
     = bindE (add_carbs sa items menu day t) (\<lambda>t'. Inr (nadd t' a))"
  by (simp add: add_carbs_def bindE_def nadd_swap split: option.splits sum.splits)

lemma add_carbs_options_irrelevant:
  "add_carbs sa items (menu\<lparr>options := x\<rparr>) day t = add_carbs sa items menu day t"
  by (simp add: add_carbs_def split: option.splits)

text \<open>
  Claim C3. When every item of every option resolves and no option has an empty
  item-group, the total of a day is the total of the same menu without its options, plus
  the sum over the choice-group ids of: the average of the values of all the options
  tagged with the id, each value being the average of the resolved values of the items of
  that option, times the required count of the group (the count its first option
  carries). Every option of a group enters the average; no subset of them is selected.
\<close>

theorem options_average_all:
  assumes "mapE (\<lambda>opt. mapE (get items) (fst opt)) (options menu) = Inr gss"
    and "[] \<notin> set gss"
  shows "calculate sa items menu day =
     bindE (calculate sa items (menu\<lparr>options := []\<rparr>) day)
       (\<lambda>t. Inr (nadd t (options_total (options menu) (map mean gss))))"
proof -
  let ?ot = "options_total (options menu) (map mean gss)"
  have stage: "bindE (group_options items (options menu) [])
        (\<lambda>grouped. bindE (add_grouped grouped t) k) = k (nadd t ?ot)" for t and k :: "Nutrients \<Rightarrow> error + Nutrients"
    using options_stage [OF assms, of t]
    by (cases "group_options items (options menu) []") (simp_all add: bindE_def)
  have with_opts: "calculate sa items menu day =
      bindE (add_fixed items (fixed menu) Nutrients0) (\<lambda>t1.
        bindE (add_carbs sa items menu day (nadd t1 ?ot)) (\<lambda>t3.
          Inr (nadd t3 \<lparr>c = c (extra menu), p = p (extra menu), f = f (extra menu),
                 cal = cal (extra menu)
                   + (c (extra menu) * 4 + p (extra menu) * 4 + f (extra menu) * 9)\<rparr>)))"
    unfolding calculate_def by (simp only: stage Let_def)
  have without: "calculate sa items (menu\<lparr>options := []\<rparr>) day =
      bindE (add_fixed items (fixed menu) Nutrients0) (\<lambda>t1.
        bindE (add_carbs sa items menu day t1) (\<lambda>t3.
          Inr (nadd t3 \<lparr>c = c (extra menu), p = p (extra menu), f = f (extra menu),
                 cal = cal (extra menu)
                   + (c (extra menu) * 4 + p (extra menu) * 4 + f (extra menu) * 9)\<rparr>)))"
    by (simp add: calculate_def add_carbs_options_irrelevant bindE_def)
  show ?thesis
    by (simp add: with_opts without add_carbs_shift bindE_def nadd_swap split: sum.splits)
qed

theorem options_average_all_witness:
  "calculate str_amount_ex egg_table choice_menu ''rest'' = Inr \<lparr>c = 6, p = 36, f = 30, cal = 420\<rparr>"
proof -
  let ?e1 = "\<lparr>c = 1, p = 6, f = 5, cal = 70\<rparr>"
  let ?e2 = "\<lparr>c = 2, p = 12, f = 10, cal = 140\<rparr>"
  let ?e3 = "\<lparr>c = 3, p = 18, f = 15, cal = 210\<rparr>"
  have h: "mapE (\<lambda>opt. mapE (get egg_table) (fst opt)) (options choice_menu)
      = Inr [[?e1], [?e2], [?e3, ?e1], [?e3]]"
    by code_simp
  have ne: "[] \<notin> set [[?e1], [?e2], [?e3, ?e1], [?e3]]"
    by simp
  have base: "calculate str_amount_ex egg_table (choice_menu\<lparr>options := []\<rparr>) ''rest''
      = Inr \<lparr>c = 0, p = 0, f = 0, cal = 0\<rparr>"
    by code_simp
  have ot: "options_total (options choice_menu) (map mean [[?e1], [?e2], [?e3, ?e1], [?e3]])
      = \<lparr>c = 6, p = 36, f = 30, cal = 420\<rparr>"
    by code_simp
  show ?thesis
    using options_average_all [OF h ne, of str_amount_ex "''rest''"] ot
    by (simp add: base bindE_def nadd_def)
qed

end
